theory Spec2Isabelle
  imports Complex_Main
begin

section \<open>Python values and the operations the routine applies to them\<close>

text \<open>
  The two input documents of \<^verbatim>\<open>compile_quant_data\<close> are decoded JSON: \<^verbatim>\<open>None\<close>,
  booleans, unbounded integers, floats, strings, lists and dicts.  A dict is an
  association list read with \<open>map_of\<close>; its keys are distinct, as the keys of a dict
  are.  The float type is the parameter \<open>'f\<close>;
  float arithmetic, the time zone database and the datetime constructor are library
  code outside the repository and are taken as the fields of an environment record.
\<close>

datatype 'f json =
    JNull
  | JBool bool
  | JInt int
  | JFloat 'f
  | JStr string
  | JList "'f json list"
  | JObj "(string \<times> 'f json) list"

datatype error =
  AttributeError | KeyError | IndexError | TypeError | OverflowError | ValueError | OSError

datatype 'f num = NI int | NF 'f

record ('f, 'z, 't) py_env =
  py_round :: "'f \<Rightarrow> int"
  float_truthy :: "'f \<Rightarrow> bool"
  int_sub_float :: "int \<Rightarrow> 'f \<Rightarrow> error + 'f"
  int_truediv :: "int \<Rightarrow> int \<Rightarrow> error + 'f"
  float_truediv :: "'f \<Rightarrow> int \<Rightarrow> 'f"
  float_round :: "'f \<Rightarrow> int \<Rightarrow> 'f"
  float_ge :: "'f num \<Rightarrow> 'f num \<Rightarrow> bool"
  py_repr :: "'f json \<Rightarrow> string"
  gettz :: "'f json \<Rightarrow> error + 'z option"
  fromtimestamp :: "'f json \<Rightarrow> 'z option \<Rightarrow> error + 't"

text \<open>Exceptions: a raise is the left injection, and \<open>bind_r\<close> propagates it.\<close>

definition bind_r :: "error + 'a \<Rightarrow> ('a \<Rightarrow> error + 'b) \<Rightarrow> error + 'b" where
  "bind_r m f = (case m of Inl e \<Rightarrow> Inl e | Inr x \<Rightarrow> f x)"

text \<open>A \<^verbatim>\<open>for\<close> loop whose body updates an accumulator and may raise.\<close>

fun for_each :: "('s \<Rightarrow> 'a \<Rightarrow> error + 's) \<Rightarrow> 's \<Rightarrow> 'a list \<Rightarrow> error + 's" where
  "for_each body acc [] = Inr acc"
| "for_each body acc (x # xs) = bind_r (body acc x) (\<lambda>acc'. for_each body acc' xs)"

text \<open>\<^verbatim>\<open>isinstance(v, int)\<close>: \<^verbatim>\<open>bool\<close> is a subclass of \<^verbatim>\<open>int\<close> in Python.\<close>

fun isinstance_int :: "'f json \<Rightarrow> bool" where
  "isinstance_int (JInt i) = True"
| "isinstance_int (JBool b) = True"
| "isinstance_int v = False"

fun isinstance_float :: "'f json \<Rightarrow> bool" where
  "isinstance_float (JFloat x) = True"
| "isinstance_float v = False"

text \<open>Truth value of an object, as \<^verbatim>\<open>if x\<close>, \<^verbatim>\<open>x or y\<close> and \<^verbatim>\<open>x and y\<close> test it.\<close>

fun py_truthy :: "('f, 'z, 't) py_env \<Rightarrow> 'f json \<Rightarrow> bool" where
  "py_truthy env JNull = False"
| "py_truthy env (JBool b) = b"
| "py_truthy env (JInt i) = (i \<noteq> 0)"
| "py_truthy env (JFloat x) = float_truthy env x"
| "py_truthy env (JStr s) = (s \<noteq> [])"
| "py_truthy env (JList xs) = (xs \<noteq> [])"
| "py_truthy env (JObj kvs) = (kvs \<noteq> [])"

text \<open>\<^verbatim>\<open>str(v)\<close>; numbers and containers are printed by the library's \<^verbatim>\<open>repr\<close>.\<close>

fun py_str :: "('f, 'z, 't) py_env \<Rightarrow> 'f json \<Rightarrow> string" where
  "py_str env JNull = ''None''"
| "py_str env (JBool b) = (if b then ''True'' else ''False'')"
| "py_str env (JStr s) = s"
| "py_str env v = py_repr env v"

text \<open>\<^verbatim>\<open>d.get(k, default)\<close> on a dict.\<close>

definition dict_get :: "(string \<times> 'f json) list \<Rightarrow> string \<Rightarrow> 'f json \<Rightarrow> 'f json" where
  "dict_get d k dflt = (case map_of d k of None \<Rightarrow> dflt | Some v \<Rightarrow> v)"

text \<open>\<^verbatim>\<open>x.get(k, default)\<close> on any object: only a dict has the method.\<close>

fun py_get :: "'f json \<Rightarrow> string \<Rightarrow> 'f json \<Rightarrow> error + 'f json" where
  "py_get (JObj d) k dflt = Inr (dict_get d k dflt)"
| "py_get v k dflt = Inl AttributeError"

text \<open>\<^verbatim>\<open>x[k]\<close> with a string key.\<close>

fun py_getitem :: "'f json \<Rightarrow> string \<Rightarrow> error + 'f json" where
  "py_getitem (JObj d) k = (case map_of d k of None \<Rightarrow> Inl KeyError | Some v \<Rightarrow> Inr v)"
| "py_getitem v k = Inl TypeError"

text \<open>Iteration: a list yields its elements, a string its characters, a dict its keys.\<close>

fun py_iter :: "'f json \<Rightarrow> error + 'f json list" where
  "py_iter (JList xs) = Inr xs"
| "py_iter (JStr s) = Inr (map (\<lambda>c. JStr [c]) s)"
| "py_iter (JObj kvs) = Inr (map (\<lambda>kv. JStr (fst kv)) kvs)"
| "py_iter v = Inl TypeError"

text \<open>\<^verbatim>\<open>x[-1]\<close>: the last element of a list, the last character of a string; a dict
  with string keys has no key \<^verbatim>\<open>-1\<close>, and nothing else can be subscripted.\<close>

fun py_last :: "'f json \<Rightarrow> error + 'f json" where
  "py_last (JList xs) = (if xs = [] then Inl IndexError else Inr (last xs))"
| "py_last (JStr s) = (if s = [] then Inl IndexError else Inr (JStr [last s]))"
| "py_last (JObj kvs) = Inl KeyError"
| "py_last v = Inl TypeError"

text \<open>The numeric reading of an object; \<^verbatim>\<open>True\<close> and \<^verbatim>\<open>False\<close> count as 1 and 0.\<close>

fun num_of :: "'f json \<Rightarrow> 'f num option" where
  "num_of (JInt i) = Some (NI i)"
| "num_of (JBool b) = Some (NI (if b then 1 else 0))"
| "num_of (JFloat x) = Some (NF x)"
| "num_of v = None"

text \<open>\<^verbatim>\<open>a >= b\<close> between numbers; integers are compared exactly.\<close>

fun num_ge :: "('f, 'z, 't) py_env \<Rightarrow> 'f num \<Rightarrow> 'f num \<Rightarrow> bool" where
  "num_ge env (NI a) (NI b) = (a \<ge> b)"
| "num_ge env a b = float_ge env a b"

text \<open>\<^verbatim>\<open>v >= n\<close> and \<^verbatim>\<open>n >= v\<close> where \<open>n\<close> is a number: anything but a number on the other
  side is a \<^verbatim>\<open>TypeError\<close>.\<close>

definition py_ge_num :: "('f, 'z, 't) py_env \<Rightarrow> 'f json \<Rightarrow> 'f num \<Rightarrow> error + bool" where
  "py_ge_num env v n = (case num_of v of None \<Rightarrow> Inl TypeError | Some a \<Rightarrow> Inr (num_ge env a n))"

definition py_num_ge :: "('f, 'z, 't) py_env \<Rightarrow> 'f num \<Rightarrow> 'f json \<Rightarrow> error + bool" where
  "py_num_ge env n v = (case num_of v of None \<Rightarrow> Inl TypeError | Some b \<Rightarrow> Inr (num_ge env n b))"

text \<open>\<^verbatim>\<open>n - v\<close> with \<open>n\<close> an integer.\<close>

definition py_int_sub :: "('f, 'z, 't) py_env \<Rightarrow> int \<Rightarrow> 'f json \<Rightarrow> error + 'f num" where
  "py_int_sub env n v =
     (case num_of v of
        None \<Rightarrow> Inl TypeError
      | Some (NI i) \<Rightarrow> Inr (NI (n - i))
      | Some (NF x) \<Rightarrow> bind_r (int_sub_float env n x) (\<lambda>r. Inr (NF r)))"

text \<open>\<^verbatim>\<open>v / k\<close> with \<open>k\<close> a non-zero integer literal: true division, always a float.\<close>

definition py_truediv :: "('f, 'z, 't) py_env \<Rightarrow> 'f json \<Rightarrow> int \<Rightarrow> error + 'f" where
  "py_truediv env v k =
     (case num_of v of
        None \<Rightarrow> Inl TypeError
      | Some (NI i) \<Rightarrow> int_truediv env i k
      | Some (NF x) \<Rightarrow> Inr (float_truediv env x k))"

section \<open>The classes of the sensor module\<close>

datatype device_class = POWER | ENERGY | TIMESTAMP

datatype state_class = MEASUREMENT | TOTAL | TOTAL_INCREASING

text \<open>
  Modelled from the spec: the classes \<^verbatim>\<open>PelotonSummary\<close>, \<^verbatim>\<open>PelotonMetric\<close> and
  \<^verbatim>\<open>PelotonStat\<close> are declared in the sensor module, which is not part of the
  sources at hand.  Their fields are the spec's Summary (value, unit, device class),
  Metric (max, average, last, unit, device class) and Stat (name, value, unit, device
  class, state class, icon), in the order of the positional arguments of the
  constructor calls, under the attribute names \<^verbatim>\<open>make_stat\<close> reads.
\<close>

record 'f PelotonSummary =
  total :: "'f json"
  summary_unit :: string
  summary_device_class :: "device_class option"

record 'f PelotonMetric =
  max_val :: "'f json"
  avg_val :: "'f json"
  last_val :: "'f json"
  metric_unit :: string
  metric_device_class :: "device_class option"

datatype ('f, 't) pyvalue = Val "'f json" | Datetime 't

record ('f, 't) PelotonStat =
  stat_name :: string
  stat_value :: "('f, 't) pyvalue"
  stat_unit :: "string option"
  stat_device_class :: "device_class option"
  stat_state_class :: state_class
  stat_icon :: "string option"

text \<open>
  What the local dicts \<^verbatim>\<open>summaries\<close> and \<^verbatim>\<open>metrics\<close> hold: \<^verbatim>\<open>summaries\<close> holds
  summaries; \<^verbatim>\<open>metrics\<close> holds a metric object under a slug and a plain dict
  \<^verbatim>\<open>{'upper': u, 'lower': l}\<close> under \<^verbatim>\<open>target_speed\<close> and \<^verbatim>\<open>target_incline\<close>.
\<close>

datatype 'f entity =
    Summary "'f PelotonSummary"
  | Metric "'f PelotonMetric"
  | Bounds "'f json" "'f json"

type_synonym 'f pydict = "string \<Rightarrow> 'f entity option"

section \<open>compile\_quant\_data\<close>

subsection \<open>Time zone\<close>

definition user_timezone ::
  "('f, 'z, 't) py_env \<Rightarrow> (string \<times> 'f json) list \<Rightarrow> error + 'z option" where
  "user_timezone env workout_stats_summary =
     (let raw_tz = dict_get workout_stats_summary ''timezone'' JNull
      in if py_truthy env raw_tz then gettz env raw_tz else gettz env (JStr ''UTC''))"

subsection \<open>Preprocess summaries\<close>

definition summary_entry ::
  "('f, 'z, 't) py_env \<Rightarrow> 'f pydict \<Rightarrow> 'f json \<Rightarrow> error + 'f pydict" where
  "summary_entry env summaries summary =
     bind_r (py_get summary ''slug'' JNull) (\<lambda>slug.
       if slug = JStr ''calories'' then
         bind_r (py_get summary ''value'' JNull) (\<lambda>v.
           Inr (summaries(''calories'' \<mapsto> Summary
             \<lparr>total = (if isinstance_int v then v else JNull),
              summary_unit = ''kcal'',
              summary_device_class = None\<rparr>)))
       else if slug = JStr ''distance'' then
         bind_r (py_get summary ''value'' JNull) (\<lambda>v.
         bind_r (py_get summary ''display_unit'' JNull) (\<lambda>u.
           Inr (summaries(''distance'' \<mapsto> Summary
             \<lparr>total = (if isinstance_float v then v else JNull),
              summary_unit = py_str env u,
              summary_device_class = None\<rparr>))))
       else if slug = JStr ''elevation'' then
         bind_r (py_get summary ''value'' JNull) (\<lambda>v.
         bind_r (py_get summary ''display_unit'' JNull) (\<lambda>u.
           Inr (summaries(''elevation'' \<mapsto> Summary
             \<lparr>total = (if isinstance_int v then v else JNull),
              summary_unit = py_str env u,
              summary_device_class = None\<rparr>))))
       else Inr summaries)"

definition preprocess_summaries ::
  "('f, 'z, 't) py_env \<Rightarrow> (string \<times> 'f json) list \<Rightarrow> error + 'f pydict" where
  "preprocess_summaries env workout_stats_detail =
     bind_r (py_iter (dict_get workout_stats_detail ''summaries'' (JList [])))
       (for_each (summary_entry env) Map.empty)"

subsection \<open>Preprocess metrics\<close>

definition flatten_entry ::
  "('f, 'z, 't) py_env \<Rightarrow> 'f json list \<Rightarrow> 'f json \<Rightarrow> error + 'f json list" where
  "flatten_entry env metrics_flattened metric =
     bind_r (py_get metric ''alternatives'' (JList [])) (\<lambda>alternatives.
       if py_truthy env alternatives then
         bind_r (py_iter alternatives) (\<lambda>alts. Inr (metrics_flattened @ [metric] @ alts))
       else Inr (metrics_flattened @ [metric]))"

definition flatten_metrics ::
  "('f, 'z, 't) py_env \<Rightarrow> (string \<times> 'f json) list \<Rightarrow> error + 'f json list" where
  "flatten_metrics env workout_stats_detail =
     bind_r (py_iter (dict_get workout_stats_detail ''metrics'' (JList [])))
       (for_each (flatten_entry env) [])"

definition int_stats :: "(string \<times> string \<times> device_class option) list" where
  "int_stats =
     [(''heart_rate'', '''', None),
      (''resistance'', ''%'', None),
      (''cadence'', ''rpm'', None),
      (''output'', ''W'', Some POWER)]"

definition float_stats :: "string list" where
  "float_stats = [''speed'', ''incline'']"

text \<open>Membership in a dict or a set hashes the key: a list or a dict is unhashable.\<close>

fun hashable :: "'f json \<Rightarrow> bool" where
  "hashable (JList xs) = False"
| "hashable (JObj kvs) = False"
| "hashable v = True"

text \<open>\<^verbatim>\<open>(metric.get("values", []) or [None])[-1]\<close>\<close>

definition last_value :: "('f, 'z, 't) py_env \<Rightarrow> 'f json \<Rightarrow> error + 'f json" where
  "last_value env metric =
     bind_r (py_get metric ''values'' (JList [])) (\<lambda>vs.
       if py_truthy env vs then py_last vs else Inr JNull)"

definition metric_entry ::
  "('f, 'z, 't) py_env \<Rightarrow> 'f pydict \<Rightarrow> 'f json \<Rightarrow> error + 'f pydict" where
  "metric_entry env metrics metric =
     bind_r (py_get metric ''slug'' JNull) (\<lambda>slug.
       if \<not> hashable slug then Inl TypeError
       else case slug of
         JStr s \<Rightarrow>
           (case map_of int_stats s of
              Some (default_unit, dc) \<Rightarrow>
                bind_r (py_get metric ''max_value'' JNull) (\<lambda>mx.
                bind_r (py_get metric ''average_value'' JNull) (\<lambda>av.
                bind_r (last_value env metric) (\<lambda>lv.
                bind_r (py_get metric ''display_unit'' (JStr default_unit)) (\<lambda>u.
                  Inr (metrics(s \<mapsto> Metric
                    \<lparr>max_val = (if isinstance_int mx then mx else JNull),
                     avg_val = (if isinstance_int av then av else JNull),
                     last_val = (if isinstance_int lv then lv else JNull),
                     metric_unit = py_str env u,
                     metric_device_class = dc\<rparr>))))))
            | None \<Rightarrow>
                if s \<in> set float_stats then
                  bind_r (py_get metric ''max_value'' JNull) (\<lambda>mx.
                  bind_r (py_get metric ''average_value'' JNull) (\<lambda>av.
                  bind_r (last_value env metric) (\<lambda>lv.
                  bind_r (py_get metric ''display_unit'' JNull) (\<lambda>u.
                    Inr (metrics(s \<mapsto> Metric
                      \<lparr>max_val = (if isinstance_float mx then mx else JNull),
                       avg_val = (if isinstance_float av then av else JNull),
                       last_val = (if isinstance_float lv then lv else JNull),
                       metric_unit = py_str env u,
                       metric_device_class = None\<rparr>))))))
                else Inr metrics)
       | _ \<Rightarrow> Inr metrics)"

definition preprocess_metrics ::
  "('f, 'z, 't) py_env \<Rightarrow> (string \<times> 'f json) list \<Rightarrow> error + 'f pydict" where
  "preprocess_metrics env workout_stats_detail =
     bind_r (flatten_metrics env workout_stats_detail)
       (for_each (metric_entry env) Map.empty)"

subsection \<open>Target windows\<close>

definition target_metrics ::
  "(string \<times> 'f json) list \<Rightarrow> error + 'f json" where
  "target_metrics workout_stats_detail =
     py_get (dict_get workout_stats_detail ''target_metrics_performance_data'' (JObj []))
       ''target_metrics'' (JList [])"

definition actual_elapsed ::
  "('f, 'z, 't) py_env \<Rightarrow> 'f \<Rightarrow> (string \<times> 'f json) list \<Rightarrow> error + 'f num" where
  "actual_elapsed env clock workout_stats_summary =
     py_int_sub env (py_round env clock) (dict_get workout_stats_summary ''start_time'' (JInt 0))"

definition target_bound ::
  "'f pydict \<Rightarrow> 'f json \<Rightarrow> error + 'f pydict" where
  "target_bound metrics metric =
     bind_r (py_get metric ''name'' JNull) (\<lambda>name.
       if name = JStr ''speed'' then
         bind_r (py_getitem metric ''upper'') (\<lambda>u.
         bind_r (py_getitem metric ''lower'') (\<lambda>l.
           Inr (metrics(''target_speed'' \<mapsto> Bounds u l))))
       else if name = JStr ''incline'' then
         bind_r (py_getitem metric ''upper'') (\<lambda>u.
         bind_r (py_getitem metric ''lower'') (\<lambda>l.
           Inr (metrics(''target_incline'' \<mapsto> Bounds u l))))
       else Inr metrics)"

text \<open>The chained comparison \<^verbatim>\<open>end >= actual_elapsed >= start\<close> reads the start
  offset only when the first comparison holds.\<close>

definition target_window ::
  "('f, 'z, 't) py_env \<Rightarrow> 'f num \<Rightarrow> 'f pydict \<Rightarrow> 'f json \<Rightarrow> error + 'f pydict" where
  "target_window env elapsed metrics target =
     bind_r (py_getitem target ''offsets'') (\<lambda>offsets.
     bind_r (py_getitem offsets ''end'') (\<lambda>end_offset.
     bind_r (py_ge_num env end_offset elapsed) (\<lambda>before_end.
       if \<not> before_end then Inr metrics
       else
         bind_r (py_getitem target ''offsets'') (\<lambda>offsets'.
         bind_r (py_getitem offsets' ''start'') (\<lambda>start_offset.
         bind_r (py_num_ge env elapsed start_offset) (\<lambda>after_start.
           if \<not> after_start then Inr metrics
           else
             bind_r (py_getitem target ''metrics'') (\<lambda>ms.
             bind_r (py_iter ms) (for_each target_bound metrics))))))))"

definition resolve_targets ::
  "('f, 'z, 't) py_env \<Rightarrow> 'f num \<Rightarrow> 'f pydict \<Rightarrow> 'f json \<Rightarrow> error + 'f pydict" where
  "resolve_targets env elapsed metrics targets =
     bind_r (py_iter targets) (for_each (target_window env elapsed) metrics)"

subsection \<open>Building the list\<close>

text \<open>\<^verbatim>\<open>getattr(data, stat, None)\<close>: a missing attribute reads as \<^verbatim>\<open>None\<close>.\<close>

definition getattr_value :: "'f entity \<Rightarrow> string \<Rightarrow> 'f json" where
  "getattr_value data stat =
     (case data of
        Summary s \<Rightarrow> (if stat = ''total'' then total s else JNull)
      | Metric m \<Rightarrow>
          (if stat = ''max_val'' then max_val m
           else if stat = ''avg_val'' then avg_val m
           else if stat = ''last_val'' then last_val m
           else JNull)
      | Bounds u l \<Rightarrow> JNull)"

definition make_stat ::
  "'f entity option \<Rightarrow> string \<Rightarrow> string \<Rightarrow> string \<Rightarrow> error + ('f, 't) PelotonStat" where
  "make_stat data name stat icon =
     (case data of
        None \<Rightarrow>
          Inr \<lparr>stat_name = name, stat_value = Val JNull, stat_unit = None,
               stat_device_class = None, stat_state_class = MEASUREMENT,
               stat_icon = Some icon\<rparr>
      | Some (Summary s) \<Rightarrow>
          Inr \<lparr>stat_name = name, stat_value = Val (getattr_value (Summary s) stat),
               stat_unit = Some (summary_unit s),
               stat_device_class = summary_device_class s,
               stat_state_class = MEASUREMENT, stat_icon = Some icon\<rparr>
      | Some (Metric m) \<Rightarrow>
          Inr \<lparr>stat_name = name, stat_value = Val (getattr_value (Metric m) stat),
               stat_unit = Some (metric_unit m),
               stat_device_class = metric_device_class m,
               stat_state_class = MEASUREMENT, stat_icon = Some icon\<rparr>
      | Some (Bounds u l) \<Rightarrow> Inl AttributeError)"

text \<open>\<^verbatim>\<open>metrics.get(key, {}).get(field, None)\<close>\<close>

definition bound_value :: "'f pydict \<Rightarrow> string \<Rightarrow> string \<Rightarrow> error + 'f json" where
  "bound_value metrics key field =
     (case metrics key of
        None \<Rightarrow> Inr JNull
      | Some (Bounds u l) \<Rightarrow>
          Inr (if field = ''upper'' then u else if field = ''lower'' then l else JNull)
      | Some other \<Rightarrow> Inl AttributeError)"

text \<open>\<^verbatim>\<open>getattr(metrics.get('speed', {}), "unit", None)\<close>\<close>

definition speed_unit :: "'f pydict \<Rightarrow> string option" where
  "speed_unit metrics =
     (case metrics ''speed'' of
        Some (Metric m) \<Rightarrow> Some (metric_unit m)
      | Some (Summary s) \<Rightarrow> Some (summary_unit s)
      | _ \<Rightarrow> None)"

definition timestamp_value ::
  "('f, 'z, 't) py_env \<Rightarrow> 'z option \<Rightarrow> (string \<times> 'f json) list \<Rightarrow> string
     \<Rightarrow> error + ('f, 't) pyvalue" where
  "timestamp_value env tz workout_stats_summary key =
     (if dict_get workout_stats_summary key JNull \<noteq> JNull then
        bind_r (fromtimestamp env (dict_get workout_stats_summary key JNull) tz)
          (\<lambda>t. Inr (Datetime t))
      else Inr (Val JNull))"

definition duration_value ::
  "('f, 'z, 't) py_env \<Rightarrow> (string \<times> 'f json) list \<Rightarrow> error + ('f, 't) pyvalue" where
  "duration_value env workout_stats_summary =
     bind_r (py_get (dict_get workout_stats_summary ''ride'' (JObj [])) ''duration'' JNull)
       (\<lambda>duration_sec.
          if py_truthy env duration_sec \<and> duration_sec \<noteq> JNull then
            bind_r (py_truediv env duration_sec 60) (\<lambda>q. Inr (Val (JFloat q)))
          else Inr (Val JNull))"

definition power_value ::
  "('f, 'z, 't) py_env \<Rightarrow> (string \<times> 'f json) list \<Rightarrow> ('f, 't) pyvalue" where
  "power_value env workout_stats_summary =
     (case map_of workout_stats_summary ''total_work'' of
        Some (JFloat total_work) \<Rightarrow>
          Val (JFloat (float_round env (float_truediv env total_work 3600) 4))
      | _ \<Rightarrow> Val JNull)"

definition mk_stat ::
  "string \<Rightarrow> ('f, 't) pyvalue \<Rightarrow> string option \<Rightarrow> device_class option \<Rightarrow> state_class
     \<Rightarrow> string option \<Rightarrow> ('f, 't) PelotonStat" where
  "mk_stat n v u dc sc ic =
     \<lparr>stat_name = n, stat_value = v, stat_unit = u, stat_device_class = dc,
      stat_state_class = sc, stat_icon = ic\<rparr>"

definition common_stats ::
  "('f, 'z, 't) py_env \<Rightarrow> 'z option \<Rightarrow> (string \<times> 'f json) list \<Rightarrow> 'f pydict
     \<Rightarrow> error + ('f, 't) PelotonStat list" where
  "common_stats env tz workout_stats_summary metrics =
     bind_r (timestamp_value env tz workout_stats_summary ''start_time'') (\<lambda>start_v.
     bind_r (timestamp_value env tz workout_stats_summary ''end_time'') (\<lambda>end_v.
     bind_r (duration_value env workout_stats_summary) (\<lambda>duration_v.
     bind_r (bound_value metrics ''target_incline'' ''upper'') (\<lambda>incline_upper.
     bind_r (bound_value metrics ''target_incline'' ''lower'') (\<lambda>incline_lower.
     bind_r (bound_value metrics ''target_speed'' ''upper'') (\<lambda>speed_upper.
     bind_r (bound_value metrics ''target_speed'' ''lower'') (\<lambda>speed_lower.
       Inr
        [mk_stat ''Start Time'' start_v None (Some TIMESTAMP) MEASUREMENT
           (Some ''mdi:timer-sand''),
         mk_stat ''End Time'' end_v None (Some TIMESTAMP) MEASUREMENT
           (Some ''mdi:timer-sand-complete''),
         mk_stat ''Duration'' duration_v (Some ''min'') None MEASUREMENT
           (Some ''mdi:timer-outline''),
         mk_stat ''Leaderboard: Rank''
           (Val (dict_get workout_stats_summary ''leaderboard_rank'' (JInt 0)))
           None None MEASUREMENT (Some ''mdi:trophy-award''),
         mk_stat ''Leaderboard: Total Users''
           (Val (dict_get workout_stats_summary ''total_leaderboard_users'' (JInt 0)))
           None None MEASUREMENT (Some ''mdi:account-group''),
         mk_stat ''Power Output'' (power_value env workout_stats_summary)
           (Some ''Wh'') (Some ENERGY) MEASUREMENT None,
         mk_stat ''Target Incline Upper'' (Val incline_upper) (Some ''%'') None MEASUREMENT
           (Some ''mdi:slope-uphill''),
         mk_stat ''Target Incline Lower'' (Val incline_lower) (Some ''%'') None MEASUREMENT
           (Some ''mdi:slope-downhill''),
         mk_stat ''Target Speed Upper'' (Val speed_upper) (speed_unit metrics) None
           MEASUREMENT (Some ''mdi:speedometer''),
         mk_stat ''Target Speed Lower'' (Val speed_lower) (speed_unit metrics) None
           MEASUREMENT (Some ''mdi:speedometer-slow'')])))))))"

text \<open>The argument lists of the fourteen \<^verbatim>\<open>make_stat\<close> calls: the dict read (False for
  \<^verbatim>\<open>summaries\<close>, True for \<^verbatim>\<open>metrics\<close>), the key, the label, the attribute, the icon.\<close>

definition derived_calls :: "(bool \<times> string \<times> string \<times> string \<times> string) list" where
  "derived_calls =
     [(False, ''distance'', ''Distance'', ''total'', ''mdi:map-marker-distance''),
      (False, ''calories'', ''Calories'', ''total'', ''mdi:fire''),
      (True, ''heart_rate'', ''Heart Rate: Average'', ''avg_val'', ''mdi:heart-pulse''),
      (True, ''heart_rate'', ''Heart Rate: Max'', ''max_val'', ''mdi:heart-pulse''),
      (True, ''resistance'', ''Resistance: Average'', ''avg_val'', ''mdi:network-strength-2''),
      (True, ''resistance'', ''Resistance: Max'', ''max_val'', ''mdi:network-strength-4''),
      (True, ''speed'', ''Speed: Average'', ''avg_val'', ''mdi:speedometer-medium''),
      (True, ''speed'', ''Speed: Max'', ''max_val'', ''mdi:speedometer''),
      (True, ''speed'', ''Speed: Most Recent'', ''last_val'', ''mdi:speedometer''),
      (True, ''incline'', ''Incline: Average'', ''avg_val'', ''mdi:slope-uphill''),
      (True, ''incline'', ''Incline: Max'', ''max_val'', ''mdi:slope-uphill''),
      (True, ''incline'', ''Incline: Most Recent'', ''last_val'', ''mdi:slope-uphill''),
      (True, ''cadence'', ''Cadence: Average'', ''avg_val'', ''mdi:fan''),
      (True, ''cadence'', ''Cadence: Max'', ''max_val'', ''mdi:fan-chevron-up'')]"

fun derived_call ::
  "'f pydict \<Rightarrow> 'f pydict \<Rightarrow> bool \<times> string \<times> string \<times> string \<times> string
     \<Rightarrow> error + ('f, 't) PelotonStat" where
  "derived_call summaries metrics (from_metrics, key, name, stat, icon) =
     make_stat ((if from_metrics then metrics else summaries) key) name stat icon"

definition derived_stats ::
  "'f pydict \<Rightarrow> 'f pydict \<Rightarrow> error + ('f, 't) PelotonStat list" where
  "derived_stats summaries metrics =
     for_each (\<lambda>acc c. bind_r (derived_call summaries metrics c) (\<lambda>s. Inr (acc @ [s])))
       [] derived_calls"

definition compile_quant_data ::
  "('f, 'z, 't) py_env \<Rightarrow> 'f \<Rightarrow> (string \<times> 'f json) list \<Rightarrow> (string \<times> 'f json) list
     \<Rightarrow> error + ('f, 't) PelotonStat list" where
  "compile_quant_data env clock workout_stats_summary workout_stats_detail =
     bind_r (user_timezone env workout_stats_summary) (\<lambda>tz.
     bind_r (preprocess_summaries env workout_stats_detail) (\<lambda>summaries.
     bind_r (preprocess_metrics env workout_stats_detail) (\<lambda>metrics.
     bind_r (target_metrics workout_stats_detail) (\<lambda>targets.
     bind_r (actual_elapsed env clock workout_stats_summary) (\<lambda>elapsed.
     bind_r (resolve_targets env elapsed metrics targets) (\<lambda>metrics'.
     bind_r (common_stats env tz workout_stats_summary metrics') (\<lambda>common.
     bind_r (derived_stats summaries metrics') (\<lambda>derived.
       Inr (common @ derived)))))))))"

subsection \<open>An environment to run the model on examples\<close>

text \<open>
  Floats as exact rationals, time zones as the names the database knows, a datetime as
  the instant paired with its zone.  Rounding is to the nearest, halves to even.
\<close>

definition round_half_even :: "rat \<Rightarrow> int" where
  "round_half_even x =
     (let n = \<lfloor>x\<rfloor>; d = x - of_int n
      in if d < 1 / 2 then n else if 1 / 2 < d then n + 1 else if even n then n else n + 1)"

fun rat_of_num :: "rat num \<Rightarrow> rat" where
  "rat_of_num (NI i) = of_int i"
| "rat_of_num (NF x) = x"

definition example_gettz :: "rat json \<Rightarrow> error + string option" where
  "example_gettz v =
     (case v of
        JStr s \<Rightarrow> Inr (if s = ''UTC'' \<or> s = ''Europe/Paris'' then Some s else None)
      | _ \<Rightarrow> Inl TypeError)"

definition example_fromtimestamp ::
  "rat json \<Rightarrow> string option \<Rightarrow> error + (rat \<times> string option)" where
  "example_fromtimestamp v z =
     (case num_of v of None \<Rightarrow> Inl TypeError | Some n \<Rightarrow> Inr (rat_of_num n, z))"

definition example_env :: "(rat, string, rat \<times> string option) py_env" where
  "example_env =
     \<lparr>py_round = round_half_even,
      float_truthy = (\<lambda>x. x \<noteq> 0),
      int_sub_float = (\<lambda>n x. Inr (of_int n - x)),
      int_truediv = (\<lambda>a b. Inr (of_int a / of_int b)),
      float_truediv = (\<lambda>x k. x / of_int k),
      float_round = (\<lambda>x nd. of_int (round_half_even (x * 10 ^ nat nd)) / 10 ^ nat nd),
      float_ge = (\<lambda>a b. rat_of_num b \<le> rat_of_num a),
      py_repr = (\<lambda>v. ''...''),
      gettz = example_gettz,
      fromtimestamp = example_fromtimestamp\<rparr>"



section \<open>The documents of the data model\<close>

text \<open>
  The labels of the list, in its order: the ten common stats, then the fourteen stats
  made by \<^verbatim>\<open>make_stat\<close>.
\<close>

definition stat_names :: "string list" where
  "stat_names =
     [''Start Time'', ''End Time'', ''Duration'', ''Leaderboard: Rank'',
      ''Leaderboard: Total Users'', ''Power Output'', ''Target Incline Upper'',
      ''Target Incline Lower'', ''Target Speed Upper'', ''Target Speed Lower'',
      ''Distance'', ''Calories'', ''Heart Rate: Average'', ''Heart Rate: Max'',
      ''Resistance: Average'', ''Resistance: Max'', ''Speed: Average'', ''Speed: Max'',
      ''Speed: Most Recent'', ''Incline: Average'', ''Incline: Max'', ''Incline: Most Recent'',
      ''Cadence: Average'', ''Cadence: Max'']"

text \<open>
  The shape of the documents: optional fields that, when present, hold what the data
  model says they hold.  In the detail document, \<^verbatim>\<open>summaries\<close> is a list of dicts;
  \<^verbatim>\<open>metrics\<close> is a list of dicts, each with a hashable slug, a list of values and a
  list of alternatives of the same shape (each of them optional); the target windows
  are a list of dicts under \<^verbatim>\<open>target_metrics_performance_data.target_metrics\<close>, each with
  numeric \<^verbatim>\<open>offsets.start\<close> and \<^verbatim>\<open>offsets.end\<close> and a list of dicts \<^verbatim>\<open>metrics\<close> in which a
  \<^verbatim>\<open>speed\<close> or \<^verbatim>\<open>incline\<close> entry has its \<^verbatim>\<open>upper\<close> and \<^verbatim>\<open>lower\<close>.  In the summary
  document, \<^verbatim>\<open>start_time\<close> is a number when present, \<^verbatim>\<open>ride\<close> is a dict when present
  and \<^verbatim>\<open>ride.duration\<close> is a number or falsy.
\<close>

fun is_dict :: "'f json \<Rightarrow> bool" where
  "is_dict (JObj e) = True"
| "is_dict v = False"

definition is_number :: "'f json \<Rightarrow> bool" where
  "is_number v = (num_of v \<noteq> None)"

definition wf_metric :: "'f json \<Rightarrow> bool" where
  "wf_metric x =
     (case x of
        JObj e \<Rightarrow>
          hashable (dict_get e ''slug'' JNull) \<and>
          (case map_of e ''values'' of None \<Rightarrow> True | Some (JList vs) \<Rightarrow> True | Some v \<Rightarrow> False)
      | _ \<Rightarrow> False)"

definition alternatives :: "'f json \<Rightarrow> 'f json list" where
  "alternatives x =
     (case x of
        JObj e \<Rightarrow> (case map_of e ''alternatives'' of Some (JList as) \<Rightarrow> as | _ \<Rightarrow> [])
      | _ \<Rightarrow> [])"

definition wf_metric_entry :: "'f json \<Rightarrow> bool" where
  "wf_metric_entry x =
     (case x of
        JObj e \<Rightarrow>
          wf_metric x \<and>
          (case map_of e ''alternatives'' of
             None \<Rightarrow> True
           | Some (JList as) \<Rightarrow> list_all wf_metric as
           | Some v \<Rightarrow> False)
      | _ \<Rightarrow> False)"

definition wf_target_bound :: "'f json \<Rightarrow> bool" where
  "wf_target_bound x =
     (case x of
        JObj m \<Rightarrow>
          (map_of m ''name'' = Some (JStr ''speed'') \<or> map_of m ''name'' = Some (JStr ''incline'')
             \<longrightarrow> map_of m ''upper'' \<noteq> None \<and> map_of m ''lower'' \<noteq> None)
      | _ \<Rightarrow> False)"

definition wf_window :: "'f json \<Rightarrow> bool" where
  "wf_window x =
     (case x of
        JObj w \<Rightarrow>
          (case map_of w ''offsets'' of
             Some (JObj off) \<Rightarrow>
               (case map_of off ''end'' of Some v \<Rightarrow> is_number v | None \<Rightarrow> False) \<and>
               (case map_of off ''start'' of Some v \<Rightarrow> is_number v | None \<Rightarrow> False)
           | _ \<Rightarrow> False) \<and>
          (case map_of w ''metrics'' of
             Some (JList ms) \<Rightarrow> list_all wf_target_bound ms
           | _ \<Rightarrow> False)
      | _ \<Rightarrow> False)"

definition wf_detail :: "(string \<times> 'f json) list \<Rightarrow> bool" where
  "wf_detail d \<longleftrightarrow>
     (case map_of d ''summaries'' of
        None \<Rightarrow> True | Some (JList xs) \<Rightarrow> list_all is_dict xs | Some v \<Rightarrow> False) \<and>
     (case map_of d ''metrics'' of
        None \<Rightarrow> True | Some (JList xs) \<Rightarrow> list_all wf_metric_entry xs | Some v \<Rightarrow> False) \<and>
     (case map_of d ''target_metrics_performance_data'' of
        None \<Rightarrow> True
      | Some (JObj p) \<Rightarrow>
          (case map_of p ''target_metrics'' of
             None \<Rightarrow> True | Some (JList ws) \<Rightarrow> list_all wf_window ws | Some v \<Rightarrow> False)
      | Some v \<Rightarrow> False)"

definition ride_duration :: "(string \<times> 'f json) list \<Rightarrow> 'f json" where
  "ride_duration s =
     (case map_of s ''ride'' of Some (JObj r) \<Rightarrow> dict_get r ''duration'' JNull | _ \<Rightarrow> JNull)"

definition wf_summary :: "('f, 'z, 't) py_env \<Rightarrow> (string \<times> 'f json) list \<Rightarrow> bool" where
  "wf_summary env s \<longleftrightarrow>
     (case map_of s ''start_time'' of None \<Rightarrow> True | Some v \<Rightarrow> is_number v) \<and>
     (case map_of s ''ride'' of None \<Rightarrow> True | Some v \<Rightarrow> is_dict v) \<and>
     (\<not> py_truthy env (ride_duration s) \<or> is_number (ride_duration s))"

definition library_ok ::
  "('f, 'z, 't) py_env \<Rightarrow> 'f \<Rightarrow> (string \<times> 'f json) list \<Rightarrow> bool" where
  "library_ok env clock s \<longleftrightarrow>
     (case user_timezone env s of
        Inl e \<Rightarrow> False
      | Inr tz \<Rightarrow>
          (case map_of s ''start_time'' of
             None \<Rightarrow> True | Some v \<Rightarrow> v = JNull \<or> \<not> isl (fromtimestamp env v tz)) \<and>
          (case map_of s ''end_time'' of
             None \<Rightarrow> True | Some v \<Rightarrow> v = JNull \<or> \<not> isl (fromtimestamp env v tz))) \<and>
     (case map_of s ''start_time'' of
        Some (JFloat x) \<Rightarrow> \<not> isl (int_sub_float env (py_round env clock) x)
      | _ \<Rightarrow> True) \<and>
     (case num_of (ride_duration s) of
        Some (NI i) \<Rightarrow> i = 0 \<or> \<not> isl (int_truediv env i 60)
      | _ \<Rightarrow> True)"

text \<open>
  What the library is asked for one summary document: the time zone lookup, the two
  datetime constructions, and the float arithmetic on a float \<^verbatim>\<open>start_time\<close> and an
  integer \<^verbatim>\<open>ride.duration\<close>; \<open>library_ok\<close> above says that none of them raises.

  The invariants of the two local dicts: \<^verbatim>\<open>summaries\<close> holds summaries only;
  \<^verbatim>\<open>metrics\<close> holds metric objects under the six metric slugs and bounds under the two
  target keys.
\<close>

definition only_summaries :: "'f pydict \<Rightarrow> bool" where
  "only_summaries m \<longleftrightarrow> (\<forall>k v. m k = Some v \<longrightarrow> (\<exists>x. v = Summary x))"

definition metric_slugs :: "string set" where
  "metric_slugs = {''heart_rate'', ''resistance'', ''cadence'', ''output'', ''speed'', ''incline''}"

definition metrics_inv :: "'f pydict \<Rightarrow> bool" where
  "metrics_inv m \<longleftrightarrow>
     (\<forall>k v. m k = Some v \<longrightarrow>
        (k \<in> metric_slugs \<and> (\<exists>x. v = Metric x)) \<or>
        (k \<in> {''target_speed'', ''target_incline''} \<and> (\<exists>u l. v = Bounds u l)))"

text \<open>
  The metric preprocessor in the spec's words: the flattened list is each top-level
  entry followed by its alternatives; a slug has a required type, \<^verbatim>\<open>int\<close> or \<^verbatim>\<open>float\<close>; a
  value that fails the check is \<^verbatim>\<open>None\<close>; the last value is the final element of the
  series of values.
\<close>

definition with_slug :: "string \<Rightarrow> 'f json list \<Rightarrow> 'f json list" where
  "with_slug k xs = filter (\<lambda>x. py_get x ''slug'' JNull = Inr (JStr k)) xs"

definition required_type :: "string \<Rightarrow> ('f json \<Rightarrow> bool) option" where
  "required_type k =
     (if k \<in> {''heart_rate'', ''resistance'', ''cadence'', ''output''} then Some isinstance_int
      else if k \<in> {''speed'', ''incline''} then Some isinstance_float
      else None)"

definition type_checked :: "('f json \<Rightarrow> bool) \<Rightarrow> 'f json \<Rightarrow> 'f json" where
  "type_checked ty v = (if ty v then v else JNull)"

definition series_last :: "(string \<times> 'f json) list \<Rightarrow> 'f json" where
  "series_last e =
     (case map_of e ''values'' of
        Some (JList vs) \<Rightarrow> (if vs = [] then JNull else last vs)
      | _ \<Rightarrow> JNull)"

definition flattened :: "'f json list \<Rightarrow> 'f json list" where
  "flattened ms = concat (map (\<lambda>x. x # alternatives x) ms)"

text \<open>
  The target windows in the spec's words.  The elapsed seconds are \<^verbatim>\<open>now\<close> minus the
  summary's \<^verbatim>\<open>start_time\<close>, an absent \<^verbatim>\<open>start_time\<close> counting as 0: an integer when
  \<^verbatim>\<open>start_time\<close> is an integer, the library's float difference when it is a float.  A
  window is active when its interval contains the elapsed seconds, both ends included:
  \<^verbatim>\<open>start <= elapsed <= end\<close>, where two integers are compared exactly and any other
  pair of numbers by the library's float comparison.  The bounds in force for a target
  name are those of the last active window, in iteration order, that carries bounds
  for the name (and of the last such entry inside it).
\<close>

definition elapsed_seconds ::
  "('f, 'z, 't) py_env \<Rightarrow> 'f \<Rightarrow> (string \<times> 'f json) list \<Rightarrow> 'f num option" where
  "elapsed_seconds env clock s =
     (case map_of s ''start_time'' of
        None \<Rightarrow> Some (NI (py_round env clock - 0))
      | Some (JInt t) \<Rightarrow> Some (NI (py_round env clock - t))
      | Some (JBool b) \<Rightarrow> Some (NI (py_round env clock - (if b then 1 else 0)))
      | Some (JFloat x) \<Rightarrow>
          (case int_sub_float env (py_round env clock) x of
             Inr r \<Rightarrow> Some (NF r)
           | Inl e \<Rightarrow> None)
      | Some v \<Rightarrow> None)"

definition num_le :: "('f, 'z, 't) py_env \<Rightarrow> 'f num \<Rightarrow> 'f num \<Rightarrow> bool" where
  "num_le env a b =
     (case (a, b) of
        (NI x, NI y) \<Rightarrow> x \<le> y
      | _ \<Rightarrow> float_ge env b a)"

definition window_offset :: "string \<Rightarrow> 'f json \<Rightarrow> 'f num option" where
  "window_offset k w =
     (case w of
        JObj kv \<Rightarrow>
          (case map_of kv ''offsets'' of
             Some (JObj off) \<Rightarrow>
               (case map_of off k of
                  Some (JInt i) \<Rightarrow> Some (NI i)
                | Some (JBool b) \<Rightarrow> Some (NI (if b then 1 else 0))
                | Some (JFloat x) \<Rightarrow> Some (NF x)
                | _ \<Rightarrow> None)
           | _ \<Rightarrow> None)
      | _ \<Rightarrow> None)"

definition active :: "('f, 'z, 't) py_env \<Rightarrow> 'f num \<Rightarrow> 'f json \<Rightarrow> bool" where
  "active env elapsed w =
     (case (window_offset ''start'' w, window_offset ''end'' w) of
        (Some start_offset, Some end_offset) \<Rightarrow>
          num_le env start_offset elapsed \<and> num_le env elapsed end_offset
      | _ \<Rightarrow> False)"

definition window_metrics :: "'f json \<Rightarrow> 'f json list" where
  "window_metrics w =
     (case w of
        JObj kv \<Rightarrow> (case map_of kv ''metrics'' of Some (JList ms) \<Rightarrow> ms | _ \<Rightarrow> [])
      | _ \<Rightarrow> [])"

definition with_name :: "string \<Rightarrow> 'f json list \<Rightarrow> 'f json list" where
  "with_name n xs = filter (\<lambda>x. py_get x ''name'' JNull = Inr (JStr n)) xs"

definition bounds_of :: "'f json \<Rightarrow> 'f json \<times> 'f json" where
  "bounds_of x =
     (case x of
        JObj mt \<Rightarrow> (dict_get mt ''upper'' JNull, dict_get mt ''lower'' JNull)
      | _ \<Rightarrow> (JNull, JNull))"

definition target_of ::
  "('f, 'z, 't) py_env \<Rightarrow> string \<Rightarrow> 'f num \<Rightarrow> 'f json list
     \<Rightarrow> ('f json \<times> 'f json) option" where
  "target_of env n elapsed ws =
     (case filter (\<lambda>w. active env elapsed w \<and> with_name n (window_metrics w) \<noteq> []) ws of
        [] \<Rightarrow> None
      | w # ws' \<Rightarrow> Some (bounds_of (last (with_name n (window_metrics (last (w # ws')))))))"

section \<open>Basic facts\<close>

lemma bind_r_Inr [simp]: "bind_r (Inr x) f = f x"
  by (simp add: bind_r_def)

lemma bind_r_Inl [simp]: "bind_r (Inl e) f = Inl e"
  by (simp add: bind_r_def)

lemma bind_r_eq_Inr: "bind_r m f = Inr y \<longleftrightarrow> (\<exists>x. m = Inr x \<and> f x = Inr y)"
  by (cases m) simp_all

lemma dict_get_None [simp]: "map_of d k = None \<Longrightarrow> dict_get d k dflt = dflt"
  by (simp add: dict_get_def)

lemma dict_get_Some [simp]: "map_of d k = Some v \<Longrightarrow> dict_get d k dflt = v"
  by (simp add: dict_get_def)

lemma summary_entry_dict:
  "summary_entry env summaries (JObj e) =
     Inr (let v = dict_get e ''value'' JNull; u = dict_get e ''display_unit'' JNull in
          if dict_get e ''slug'' JNull = JStr ''calories'' then
            (summaries(''calories'' \<mapsto> Summary \<lparr>total = (if isinstance_int v then v else JNull),
              summary_unit = ''kcal'', summary_device_class = None\<rparr>))
          else if dict_get e ''slug'' JNull = JStr ''distance'' then
            (summaries(''distance'' \<mapsto> Summary \<lparr>total = (if isinstance_float v then v else JNull),
              summary_unit = py_str env u, summary_device_class = None\<rparr>))
          else if dict_get e ''slug'' JNull = JStr ''elevation'' then
            (summaries(''elevation'' \<mapsto> Summary \<lparr>total = (if isinstance_int v then v else JNull),
              summary_unit = py_str env u, summary_device_class = None\<rparr>))
          else summaries)"
  by (simp add: summary_entry_def Let_def)

lemma for_each_total:
  assumes "\<And>acc x. x \<in> set xs \<Longrightarrow> \<exists>acc'. body acc x = Inr acc'"
  shows "\<exists>r. for_each body acc xs = Inr r"
  using assms
proof (induction xs arbitrary: acc)
  case Nil
  then show ?case by simp
next
  case (Cons x xs)
  from Cons.prems[of x acc] obtain acc' where "body acc x = Inr acc'" by auto
  moreover from Cons.IH[of acc'] Cons.prems obtain r where "for_each body acc' xs = Inr r"
    by auto
  ultimately show ?case by simp
qed

lemma for_each_invariant:
  assumes "for_each body acc xs = Inr r" and "P acc"
    and "\<And>a x a'. x \<in> set xs \<Longrightarrow> P a \<Longrightarrow> body a x = Inr a' \<Longrightarrow> P a'"
  shows "P r"
  using assms
proof (induction xs arbitrary: acc)
  case Nil
  then show ?case by simp
next
  case (Cons x xs)
  from Cons.prems(1) obtain a' where a': "body acc x = Inr a'" "for_each body a' xs = Inr r"
    by (auto simp: bind_r_eq_Inr)
  have "P a'" using Cons.prems(2,3) a'(1) by auto
  then show ?case using Cons.IH[OF a'(2)] Cons.prems(3) by auto
qed

lemma for_each_last_wins:
  assumes "for_each body a xs = Inr r"
    and "\<And>b x b'. x \<in> set xs \<Longrightarrow> body b x = Inr b' \<Longrightarrow>
           (if hit x then Q x (b' k) else b' k = b k)"
  shows "case filter hit xs of [] \<Rightarrow> r k = a k | y # ys \<Rightarrow> Q (last (y # ys)) (r k)"
  using assms
proof (induction xs arbitrary: a)
  case Nil
  then show ?case by simp
next
  case (Cons x xs)
  from Cons.prems(1) obtain a1 where a1: "body a x = Inr a1" and r: "for_each body a1 xs = Inr r"
    by (auto simp: bind_r_eq_Inr)
  have step: "if hit x then Q x (a1 k) else a1 k = a k"
    using Cons.prems(2)[of x a a1] a1 by simp
  have rest: "if hit y then Q y (b' k) else b' k = b k"
    if "y \<in> set xs" and "body b y = Inr b'" for b y b'
    using Cons.prems(2)[of y b b'] that by simp
  have ih: "case filter hit xs of [] \<Rightarrow> r k = a1 k | y # ys \<Rightarrow> Q (last (y # ys)) (r k)"
    by (rule Cons.IH[OF r]) (rule rest)
  show ?case
  proof (cases "filter hit xs")
    case Nil
    with ih have "r k = a1 k" by simp
    with step Nil show ?thesis by (cases "hit x") simp_all
  next
    case (Cons y ys)
    with ih have "Q (last (y # ys)) (r k)" by simp
    with Cons show ?thesis by (cases "hit x") simp_all
  qed
qed

lemma summary_entry_not_dict:
  "\<forall>e. x \<noteq> JObj e \<Longrightarrow> summary_entry env a x = Inl AttributeError"
  by (cases x) (simp_all add: summary_entry_def)

lemma summary_entry_dom:
  assumes "summary_entry env a x = Inr a'"
  shows "dom a' \<subseteq> dom a \<union> {''calories'', ''distance'', ''elevation''}"
proof (cases "\<exists>e. x = JObj e")
  case True
  then show ?thesis
    using assms by (auto simp: summary_entry_dict Let_def split: if_splits)
next
  case False
  then show ?thesis
    using assms summary_entry_not_dict[of x env a] by simp
qed

lemma dict_get_slug: "dict_get e k JNull = JStr s \<longleftrightarrow> map_of e k = Some (JStr s)"
  by (auto simp: dict_get_def split: option.splits)

section \<open>The summary preprocessor\<close>

lemma summaries_last_wins:
  assumes "for_each (summary_entry env) Map.empty (map JObj es) = Inr m"
    and "k \<in> {''calories'', ''distance'', ''elevation''}"
  shows "case filter (\<lambda>e. map_of e ''slug'' = Some (JStr k)) es of
           [] \<Rightarrow> m k = None
         | e0 # es0 \<Rightarrow>
             (\<exists>x. m k = Some (Summary x) \<and>
                summary_unit x =
                  (if k = ''calories'' then ''kcal''
                   else py_str env (dict_get (last (e0 # es0)) ''display_unit'' JNull)) \<and>
                total x =
                  (if k = ''distance''
                   then (case dict_get (last (e0 # es0)) ''value'' JNull of
                           JFloat r \<Rightarrow> JFloat r | _ \<Rightarrow> JNull)
                   else (case dict_get (last (e0 # es0)) ''value'' JNull of
                           JInt i \<Rightarrow> JInt i | JBool b \<Rightarrow> JBool b | _ \<Rightarrow> JNull)) \<and>
                summary_device_class x = None)"
proof -
  let ?hit = "\<lambda>x. case x of JObj e \<Rightarrow> map_of e ''slug'' = Some (JStr k) | _ \<Rightarrow> False"
  let ?Q = "\<lambda>y v. \<exists>e x. y = JObj e \<and> v = Some (Summary x) \<and>
                summary_unit x =
                  (if k = ''calories'' then ''kcal''
                   else py_str env (dict_get e ''display_unit'' JNull)) \<and>
                total x =
                  (if k = ''distance''
                   then (case dict_get e ''value'' JNull of JFloat r \<Rightarrow> JFloat r | _ \<Rightarrow> JNull)
                   else (case dict_get e ''value'' JNull of
                           JInt i \<Rightarrow> JInt i | JBool b \<Rightarrow> JBool b | _ \<Rightarrow> JNull)) \<and>
                summary_device_class x = None"
  have keep: "(if isinstance_int v then v else JNull) =
      (case v of JInt i \<Rightarrow> JInt i | JBool b \<Rightarrow> JBool b | _ \<Rightarrow> JNull)"
    "(if isinstance_float v then v else JNull) = (case v of JFloat r \<Rightarrow> JFloat r | _ \<Rightarrow> JNull)"
    for v :: "'a json"
    by (cases v; simp)+
  have lw: "case filter ?hit (map JObj es) of
          [] \<Rightarrow> m k = Map.empty k | y # ys \<Rightarrow> ?Q (last (y # ys)) (m k)"
  proof (rule for_each_last_wins[OF assms(1)])
    fix b :: "'a pydict" and x b'
    assume "x \<in> set (map JObj es)" and r: "summary_entry env b x = Inr b'"
    then obtain e where e: "x = JObj e" by auto
    let ?slug = "dict_get e ''slug'' JNull"
    consider (c) "?slug = JStr ''calories''" | (d) "?slug = JStr ''distance''"
      | (v) "?slug = JStr ''elevation''"
      | (o) "?slug \<noteq> JStr ''calories''" "?slug \<noteq> JStr ''distance''"
            "?slug \<noteq> JStr ''elevation''"
      by blast
    then show "if ?hit x then ?Q x (b' k) else b' k = b k"
    proof cases
      case c
      with r have b': "b' = b(''calories'' \<mapsto> Summary
           \<lparr>total = (if isinstance_int (dict_get e ''value'' JNull)
                      then dict_get e ''value'' JNull else JNull),
            summary_unit = ''kcal'', summary_device_class = None\<rparr>)"
        unfolding e summary_entry_dict by (simp add: Let_def)
      from c have "map_of e ''slug'' = Some (JStr ''calories'')" by (simp add: dict_get_slug)
      then show ?thesis unfolding e b' by (simp add: keep)
    next
      case d
      with r have b': "b' = b(''distance'' \<mapsto> Summary
           \<lparr>total = (if isinstance_float (dict_get e ''value'' JNull)
                      then dict_get e ''value'' JNull else JNull),
            summary_unit = py_str env (dict_get e ''display_unit'' JNull),
            summary_device_class = None\<rparr>)"
        unfolding e summary_entry_dict by (simp add: Let_def)
      from d have "map_of e ''slug'' = Some (JStr ''distance'')" by (simp add: dict_get_slug)
      then show ?thesis unfolding e b' by (simp add: keep)
    next
      case v
      with r have b': "b' = b(''elevation'' \<mapsto> Summary
           \<lparr>total = (if isinstance_int (dict_get e ''value'' JNull)
                      then dict_get e ''value'' JNull else JNull),
            summary_unit = py_str env (dict_get e ''display_unit'' JNull),
            summary_device_class = None\<rparr>)"
        unfolding e summary_entry_dict by (simp add: Let_def)
      from v have "map_of e ''slug'' = Some (JStr ''elevation'')" by (simp add: dict_get_slug)
      then show ?thesis unfolding e b' by (simp add: keep)
    next
      case o
      with r have b': "b' = b" unfolding e summary_entry_dict by (simp add: Let_def)
      from o assms(2) have "map_of e ''slug'' \<noteq> Some (JStr k)"
        by (auto simp: dict_get_slug[symmetric])
      then show ?thesis unfolding e b' by simp
    qed
  qed
  have fm: "filter ?hit (map JObj es) =
      map JObj (filter (\<lambda>e. map_of e ''slug'' = Some (JStr k)) es)"
    by (induction es) simp_all
  show ?thesis
  proof (cases "filter (\<lambda>e. map_of e ''slug'' = Some (JStr k)) es")
    case Nil
    with lw fm show ?thesis by simp
  next
    case (Cons e0 es0)
    with fm have "filter ?hit (map JObj es) = JObj e0 # map JObj es0" by simp
    with lw have "?Q (last (JObj e0 # map JObj es0)) (m k)" by simp
    moreover have "last (JObj e0 # map JObj es0) = JObj (last (e0 # es0))"
      using last_map[of "e0 # es0" JObj] by simp
    ultimately show ?thesis using Cons by auto
  qed
qed

text \<open>
  Claim C2.  For an entry of the summaries collection (a dict), the loop body never
  raises and changes no key but the entry's own recognised slug.  A \<^verbatim>\<open>calories\<close>
  entry keeps its value only when the value is an instance of \<^verbatim>\<open>int\<close> (an integer, or a
  boolean, which Python counts as one; a float or anything else gives \<^verbatim>\<open>None\<close>) and its unit
  is always \<^verbatim>\<open>kcal\<close>.  A \<^verbatim>\<open>distance\<close> entry keeps its value only when it is a float (an
  integer gives \<^verbatim>\<open>None\<close>), with the unit read from the entry's \<^verbatim>\<open>display_unit\<close>.  An
  \<^verbatim>\<open>elevation\<close> entry keeps its value only when it is an instance of \<^verbatim>\<open>int\<close>.  An entry
  with any other slug leaves the mapping as it was.  Over a whole collection of dict
  entries the preprocessor returns a mapping whose keys are among the three slugs: a
  slug no entry has gets no key, and a slug some entry has gets the summary of the last
  entry with that slug, with the value and the unit just described.
\<close>

theorem summary_preprocessor_types:
  "\<exists>summaries'. summary_entry env summaries (JObj e) = Inr summaries' \<and>
     (\<forall>k. map_of e ''slug'' \<noteq> Some (JStr k) \<or> k \<notin> {''calories'', ''distance'', ''elevation''}
          \<longrightarrow> summaries' k = summaries k) \<and>
     (map_of e ''slug'' = Some (JStr ''calories'') \<longrightarrow>
        (\<exists>x. summaries' ''calories'' = Some (Summary x) \<and> summary_unit x = ''kcal'' \<and>
           total x = (case dict_get e ''value'' JNull of
                        JInt i \<Rightarrow> JInt i | JBool b \<Rightarrow> JBool b | _ \<Rightarrow> JNull))) \<and>
     (map_of e ''slug'' = Some (JStr ''distance'') \<longrightarrow>
        (\<exists>x. summaries' ''distance'' = Some (Summary x) \<and>
           summary_unit x = py_str env (dict_get e ''display_unit'' JNull) \<and>
           total x = (case dict_get e ''value'' JNull of JFloat r \<Rightarrow> JFloat r | _ \<Rightarrow> JNull))) \<and>
     (map_of e ''slug'' = Some (JStr ''elevation'') \<longrightarrow>
        (\<exists>x. summaries' ''elevation'' = Some (Summary x) \<and>
           summary_unit x = py_str env (dict_get e ''display_unit'' JNull) \<and>
           total x = (case dict_get e ''value'' JNull of
                        JInt i \<Rightarrow> JInt i | JBool b \<Rightarrow> JBool b | _ \<Rightarrow> JNull))) \<and>
     (dict_get d ''summaries'' (JList []) = JList (map JObj es) \<longrightarrow>
        (\<exists>m. preprocess_summaries env d = Inr m \<and>
           dom m \<subseteq> {''calories'', ''distance'', ''elevation''} \<and>
           (\<forall>k \<in> {''calories'', ''distance'', ''elevation''}.
              case filter (\<lambda>e. map_of e ''slug'' = Some (JStr k)) es of
                [] \<Rightarrow> m k = None
              | e0 # es0 \<Rightarrow>
                  (\<exists>x. m k = Some (Summary x) \<and>
                     summary_unit x =
                       (if k = ''calories'' then ''kcal''
                        else py_str env (dict_get (last (e0 # es0)) ''display_unit'' JNull)) \<and>
                     total x =
                       (if k = ''distance''
                        then (case dict_get (last (e0 # es0)) ''value'' JNull of
                                JFloat r \<Rightarrow> JFloat r | _ \<Rightarrow> JNull)
                        else (case dict_get (last (e0 # es0)) ''value'' JNull of
                                JInt i \<Rightarrow> JInt i | JBool b \<Rightarrow> JBool b | _ \<Rightarrow> JNull)) \<and>
                     summary_device_class x = None))))"
proof -
  let ?v = "dict_get e ''value'' JNull"
  have int_keep: "(if isinstance_int ?v then ?v else JNull) =
      (case ?v of JInt i \<Rightarrow> JInt i | JBool b \<Rightarrow> JBool b | _ \<Rightarrow> JNull)"
    by (cases ?v) simp_all
  have float_keep: "(if isinstance_float ?v then ?v else JNull) =
      (case ?v of JFloat r \<Rightarrow> JFloat r | _ \<Rightarrow> JNull)"
    by (cases ?v) simp_all
  have entry: "\<exists>summaries'. summary_entry env summaries (JObj e) = Inr summaries'"
    by (simp add: summary_entry_dict)
  have loop: "\<exists>m. preprocess_summaries env d = Inr m \<and>
           dom m \<subseteq> {''calories'', ''distance'', ''elevation''} \<and>
           (\<forall>k \<in> {''calories'', ''distance'', ''elevation''}.
              case filter (\<lambda>e. map_of e ''slug'' = Some (JStr k)) es of
                [] \<Rightarrow> m k = None
              | e0 # es0 \<Rightarrow>
                  (\<exists>x. m k = Some (Summary x) \<and>
                     summary_unit x =
                       (if k = ''calories'' then ''kcal''
                        else py_str env (dict_get (last (e0 # es0)) ''display_unit'' JNull)) \<and>
                     total x =
                       (if k = ''distance''
                        then (case dict_get (last (e0 # es0)) ''value'' JNull of
                                JFloat r \<Rightarrow> JFloat r | _ \<Rightarrow> JNull)
                        else (case dict_get (last (e0 # es0)) ''value'' JNull of
                                JInt i \<Rightarrow> JInt i | JBool b \<Rightarrow> JBool b | _ \<Rightarrow> JNull)) \<and>
                     summary_device_class x = None))"
    if d: "dict_get d ''summaries'' (JList []) = JList (map JObj es)"
  proof -
    have "\<exists>m. for_each (summary_entry env) Map.empty (map JObj es) = Inr m"
      by (rule for_each_total) (auto simp: summary_entry_dict)
    then obtain m where m: "for_each (summary_entry env) Map.empty (map JObj es) = Inr m" ..
    have "dom m \<subseteq> {''calories'', ''distance'', ''elevation''}"
    proof (rule for_each_invariant[OF m,
          where P = "\<lambda>a. dom a \<subseteq> {''calories'', ''distance'', ''elevation''}"])
      show "dom (Map.empty :: 'a pydict) \<subseteq> {''calories'', ''distance'', ''elevation''}"
        by simp
    next
      fix a :: "'a pydict" and x a'
      assume "x \<in> set (map JObj es)"
        and "dom a \<subseteq> {''calories'', ''distance'', ''elevation''}"
        and "summary_entry env a x = Inr a'"
      then show "dom a' \<subseteq> {''calories'', ''distance'', ''elevation''}"
        using summary_entry_dom[of env a x a'] by blast
    qed
    moreover have "preprocess_summaries env d = Inr m"
      using m d by (simp add: preprocess_summaries_def)
    ultimately show ?thesis
      using summaries_last_wins[OF m] by blast
  qed
  have entry_facts: "\<exists>summaries'. summary_entry env summaries (JObj e) = Inr summaries' \<and>
     (\<forall>k. map_of e ''slug'' \<noteq> Some (JStr k) \<or> k \<notin> {''calories'', ''distance'', ''elevation''}
          \<longrightarrow> summaries' k = summaries k) \<and>
     (map_of e ''slug'' = Some (JStr ''calories'') \<longrightarrow>
        (\<exists>x. summaries' ''calories'' = Some (Summary x) \<and> summary_unit x = ''kcal'' \<and>
           total x = (case dict_get e ''value'' JNull of
                        JInt i \<Rightarrow> JInt i | JBool b \<Rightarrow> JBool b | _ \<Rightarrow> JNull))) \<and>
     (map_of e ''slug'' = Some (JStr ''distance'') \<longrightarrow>
        (\<exists>x. summaries' ''distance'' = Some (Summary x) \<and>
           summary_unit x = py_str env (dict_get e ''display_unit'' JNull) \<and>
           total x = (case dict_get e ''value'' JNull of JFloat r \<Rightarrow> JFloat r | _ \<Rightarrow> JNull))) \<and>
     (map_of e ''slug'' = Some (JStr ''elevation'') \<longrightarrow>
        (\<exists>x. summaries' ''elevation'' = Some (Summary x) \<and>
           summary_unit x = py_str env (dict_get e ''display_unit'' JNull) \<and>
           total x = (case dict_get e ''value'' JNull of
                        JInt i \<Rightarrow> JInt i | JBool b \<Rightarrow> JBool b | _ \<Rightarrow> JNull)))"
    unfolding summary_entry_dict
    apply (rule exI, rule conjI, rule refl)
    using int_keep float_keep
    apply (simp add: Let_def dict_get_slug)
    done
  from entry_facts loop show ?thesis by blast
qed

theorem summary_preprocessor_types_witness:
  "\<exists>m x. preprocess_summaries example_env
       [(''summaries'', JList
          [JObj [(''slug'', JStr ''calories''), (''value'', JInt 250)],
           JObj [(''slug'', JStr ''distance''), (''value'', JInt 3), (''display_unit'', JStr ''mi'')],
           JObj [(''slug'', JStr ''pace''), (''value'', JInt 3)],
           JObj [(''slug'', JStr ''calories''), (''value'', JFloat (5 / 2))]])] = Inr m \<and>
     m ''calories'' = Some (Summary x) \<and> summary_unit x = ''kcal'' \<and> total x = JNull \<and>
     m ''elevation'' = None \<and> m ''pace'' = None \<and>
     (\<exists>y. m ''distance'' = Some (Summary y) \<and> summary_unit y = ''mi'' \<and> total y = JNull) \<and>
     (\<exists>summaries' z.
        summary_entry example_env Map.empty
          (JObj [(''slug'', JStr ''calories''), (''value'', JFloat (5 / 2))]) = Inr summaries' \<and>
        summaries' ''calories'' = Some (Summary z) \<and> summary_unit z = ''kcal'' \<and>
        total z = JNull)"
proof -
  let ?e = "[(''slug'', JStr ''calories''), (''value'', JFloat (5 / 2 :: rat))]"
  let ?es = "[[(''slug'', JStr ''calories''), (''value'', JInt 250)],
           [(''slug'', JStr ''distance''), (''value'', JInt 3), (''display_unit'', JStr ''mi'')],
           [(''slug'', JStr ''pace''), (''value'', JInt 3)],
           [(''slug'', JStr ''calories''), (''value'', JFloat (5 / 2 :: rat))]]"
  let ?d = "[(''summaries'', JList (map JObj ?es))]"
  have h: "dict_get ?d ''summaries'' (JList []) = JList (map JObj ?es)" by simp
  note T = summary_preprocessor_types[of example_env Map.empty ?e ?d ?es]
  have s: "map_of ?e ''slug'' = Some (JStr ''calories'')" by simp
  from T s have en: "\<exists>summaries' z.
        summary_entry example_env Map.empty (JObj ?e) = Inr summaries' \<and>
        summaries' ''calories'' = Some (Summary z) \<and> summary_unit z = ''kcal'' \<and>
        total z = JNull"
    by (simp add: dict_get_def) blast
  from T h
  obtain m where m: "preprocess_summaries example_env ?d = Inr m"
    and dom: "dom m \<subseteq> {''calories'', ''distance'', ''elevation''}"
    and all: "\<forall>k \<in> {''calories'', ''distance'', ''elevation''}.
              case filter (\<lambda>e. map_of e ''slug'' = Some (JStr k)) ?es of
                [] \<Rightarrow> m k = None
              | e0 # es0 \<Rightarrow>
                  (\<exists>x. m k = Some (Summary x) \<and>
                     summary_unit x =
                       (if k = ''calories'' then ''kcal''
                        else py_str example_env
                               (dict_get (last (e0 # es0)) ''display_unit'' JNull)) \<and>
                     total x =
                       (if k = ''distance''
                        then (case dict_get (last (e0 # es0)) ''value'' JNull of
                                JFloat r \<Rightarrow> JFloat r | _ \<Rightarrow> JNull)
                        else (case dict_get (last (e0 # es0)) ''value'' JNull of
                                JInt i \<Rightarrow> JInt i | JBool b \<Rightarrow> JBool b | _ \<Rightarrow> JNull)) \<and>
                     summary_device_class x = None)"
    by blast
  from all[rule_format, of "''calories''"]
  have c: "\<exists>x. m ''calories'' = Some (Summary x) \<and> summary_unit x = ''kcal'' \<and> total x = JNull"
    by (simp add: dict_get_def) blast
  from all[rule_format, of "''distance''"]
  have di: "\<exists>y. m ''distance'' = Some (Summary y) \<and> summary_unit y = ''mi'' \<and> total y = JNull"
    by (simp add: dict_get_def) blast
  from all[rule_format, of "''elevation''"] have e: "m ''elevation'' = None" by simp
  from dom have p: "m ''pace'' = None" by (auto simp: dom_def)
  from m c di e p en show ?thesis by simp
qed

section \<open>Units\<close>

lemma metric_entry_int:
  assumes "map_of e ''slug'' = Some (JStr k)" and "map_of int_stats k = Some (u, dc)"
  shows "metric_entry env metrics (JObj e) =
     bind_r (last_value env (JObj e)) (\<lambda>lv.
       Inr (metrics(k \<mapsto> Metric
         \<lparr>max_val = (if isinstance_int (dict_get e ''max_value'' JNull)
                     then dict_get e ''max_value'' JNull else JNull),
          avg_val = (if isinstance_int (dict_get e ''average_value'' JNull)
                     then dict_get e ''average_value'' JNull else JNull),
          last_val = (if isinstance_int lv then lv else JNull),
          metric_unit = py_str env (dict_get e ''display_unit'' (JStr u)),
          metric_device_class = dc\<rparr>)))"
  using assms by (simp add: metric_entry_def)

lemma metric_entry_float:
  assumes "map_of e ''slug'' = Some (JStr k)" and "k \<in> set float_stats"
  shows "metric_entry env metrics (JObj e) =
     bind_r (last_value env (JObj e)) (\<lambda>lv.
       Inr (metrics(k \<mapsto> Metric
         \<lparr>max_val = (if isinstance_float (dict_get e ''max_value'' JNull)
                     then dict_get e ''max_value'' JNull else JNull),
          avg_val = (if isinstance_float (dict_get e ''average_value'' JNull)
                     then dict_get e ''average_value'' JNull else JNull),
          last_val = (if isinstance_float lv then lv else JNull),
          metric_unit = py_str env (dict_get e ''display_unit'' JNull),
          metric_device_class = None\<rparr>)))"
proof -
  from assms(2) have "map_of int_stats k = None"
    by (auto simp: float_stats_def int_stats_def)
  with assms show ?thesis by (simp add: metric_entry_def)
qed

text \<open>
  Claim C10.  The unit of a summary or of a metric is \<^verbatim>\<open>str\<close> of what \<^verbatim>\<open>get\<close> returns for
  \<^verbatim>\<open>display_unit\<close>.  For a \<^verbatim>\<open>distance\<close> or \<^verbatim>\<open>elevation\<close> summary and for a \<^verbatim>\<open>speed\<close> or
  \<^verbatim>\<open>incline\<close> metric whose \<^verbatim>\<open>display_unit\<close> is absent or null, the unit is the string
  \<^verbatim>\<open>"None"\<close>.  For a \<^verbatim>\<open>heart_rate\<close>, \<^verbatim>\<open>resistance\<close>, \<^verbatim>\<open>cadence\<close> or \<^verbatim>\<open>output\<close> metric the
  default unit of the lookup table is used when the key is absent, and a key that is
  present with the value null gives \<^verbatim>\<open>"None"\<close> again.  \<^verbatim>\<open>make_stat\<close> emits the unit of
  the object it is given.
\<close>

theorem display_unit_coercion:
  "(map_of e ''display_unit'' = None \<or> map_of e ''display_unit'' = Some JNull \<longrightarrow>
      (\<forall>k \<in> {''distance'', ''elevation''}. map_of e ''slug'' = Some (JStr k) \<longrightarrow>
         (\<exists>x. summary_entry env summaries (JObj e) = Inr (summaries(k \<mapsto> Summary x)) \<and>
              summary_unit x = ''None'')) \<and>
      (\<forall>k \<in> {''speed'', ''incline''}. map_of e ''slug'' = Some (JStr k) \<longrightarrow>
         (\<forall>metrics'. metric_entry env metrics (JObj e) = Inr metrics' \<longrightarrow>
            (\<exists>x. metrics' k = Some (Metric x) \<and> metric_unit x = ''None'')))) \<and>
   (\<forall>k \<in> {''heart_rate'', ''resistance'', ''cadence'', ''output''}.
      map_of e ''slug'' = Some (JStr k) \<longrightarrow>
      (\<forall>metrics'. metric_entry env metrics (JObj e) = Inr metrics' \<longrightarrow>
         (\<exists>x u dc. metrics' k = Some (Metric x) \<and> map_of int_stats k = Some (u, dc) \<and>
            (map_of e ''display_unit'' = None \<longrightarrow> metric_unit x = u) \<and>
            (map_of e ''display_unit'' = Some JNull \<longrightarrow> metric_unit x = ''None'')))) \<and>
   (\<forall>x n a i. \<exists>st :: ('f, 't) PelotonStat.
      make_stat (Some (Summary x)) n a i = Inr st \<and> stat_unit st = Some (summary_unit x)) \<and>
   (\<forall>x n a i. \<exists>st :: ('f, 't) PelotonStat.
      make_stat (Some (Metric x)) n a i = Inr st \<and> stat_unit st = Some (metric_unit x))"
  (is "?A \<and> ?B \<and> ?C \<and> ?D")
proof (intro conjI)
  have unit_none: "py_str env (dict_get e ''display_unit'' JNull) = ''None''"
    if "map_of e ''display_unit'' = None \<or> map_of e ''display_unit'' = Some JNull"
    using that by auto
  show ?A
  proof (intro impI conjI ballI allI)
    fix k assume h: "map_of e ''display_unit'' = None \<or> map_of e ''display_unit'' = Some JNull"
      and k: "k \<in> {''distance'', ''elevation''}" and s: "map_of e ''slug'' = Some (JStr k)"
    from k s unit_none[OF h]
    show "\<exists>x. summary_entry env summaries (JObj e) = Inr (summaries(k \<mapsto> Summary x)) \<and>
              summary_unit x = ''None''"
      by (auto simp: summary_entry_dict Let_def)
  next
    fix k metrics'
    assume h: "map_of e ''display_unit'' = None \<or> map_of e ''display_unit'' = Some JNull"
      and k: "k \<in> {''speed'', ''incline''}" and s: "map_of e ''slug'' = Some (JStr k)"
      and r: "metric_entry env metrics (JObj e) = Inr metrics'"
    from k have "k \<in> set float_stats" by (auto simp: float_stats_def)
    from r metric_entry_float[OF s this, of env metrics] unit_none[OF h]
    show "\<exists>x. metrics' k = Some (Metric x) \<and> metric_unit x = ''None''"
      by (auto simp: bind_r_eq_Inr)
  qed
  show ?B
  proof (intro impI ballI allI)
    fix k metrics'
    assume k: "k \<in> {''heart_rate'', ''resistance'', ''cadence'', ''output''}"
      and s: "map_of e ''slug'' = Some (JStr k)"
      and r: "metric_entry env metrics (JObj e) = Inr metrics'"
    from k obtain u dc where t: "map_of int_stats k = Some (u, dc)"
      by (auto simp: int_stats_def)
    from r metric_entry_int[OF s t, of env metrics]
    obtain lv where m: "metrics' = metrics(k \<mapsto> Metric
         \<lparr>max_val = (if isinstance_int (dict_get e ''max_value'' JNull)
                     then dict_get e ''max_value'' JNull else JNull),
          avg_val = (if isinstance_int (dict_get e ''average_value'' JNull)
                     then dict_get e ''average_value'' JNull else JNull),
          last_val = (if isinstance_int lv then lv else JNull),
          metric_unit = py_str env (dict_get e ''display_unit'' (JStr u)),
          metric_device_class = dc\<rparr>)"
      by (auto simp: bind_r_eq_Inr)
    show "\<exists>x u dc. metrics' k = Some (Metric x) \<and> map_of int_stats k = Some (u, dc) \<and>
            (map_of e ''display_unit'' = None \<longrightarrow> metric_unit x = u) \<and>
            (map_of e ''display_unit'' = Some JNull \<longrightarrow> metric_unit x = ''None'')"
      unfolding m using t by auto
  qed
  show ?C by (simp add: make_stat_def)
  show ?D by (simp add: make_stat_def)
qed

theorem display_unit_coercion_witness:
  "map_of [(''slug'', JStr ''distance''), (''display_unit'', JNull :: rat json)] ''display_unit''
     = Some JNull \<and>
   (\<exists>x. summary_entry example_env Map.empty
           (JObj [(''slug'', JStr ''distance''), (''display_unit'', JNull)])
         = Inr [''distance'' \<mapsto> Summary x] \<and> summary_unit x = ''None'') \<and>
   map_of [(''slug'', JStr ''cadence'') :: string \<times> rat json] ''display_unit'' = None \<and>
   (\<exists>metrics' x. metric_entry example_env Map.empty (JObj [(''slug'', JStr ''cadence'')])
         = Inr metrics' \<and> metrics' ''cadence'' = Some (Metric x) \<and> metric_unit x = ''rpm'') \<and>
   (\<exists>metrics' x. metric_entry example_env Map.empty
           (JObj [(''slug'', JStr ''cadence''), (''display_unit'', JNull)])
         = Inr metrics' \<and> metrics' ''cadence'' = Some (Metric x) \<and> metric_unit x = ''None'')"
proof -
  let ?e1 = "[(''slug'', JStr ''distance''), (''display_unit'', JNull :: rat json)]"
  let ?e2 = "[(''slug'', JStr ''cadence'') :: string \<times> rat json]"
  let ?e3 = "[(''slug'', JStr ''cadence''), (''display_unit'', JNull :: rat json)]"
  have r2: "\<exists>m. metric_entry example_env Map.empty (JObj ?e2) = Inr m"
    by (simp add: metric_entry_def last_value_def int_stats_def)
  have r3: "\<exists>m. metric_entry example_env Map.empty (JObj ?e3) = Inr m"
    by (simp add: metric_entry_def last_value_def int_stats_def)
  have u: "map_of int_stats ''cadence'' = Some (''rpm'', None)"
    by (simp add: int_stats_def)
  from display_unit_coercion [of ?e1 example_env Map.empty Map.empty]
  have c1: "\<exists>x. summary_entry example_env Map.empty (JObj ?e1)
         = Inr [''distance'' \<mapsto> Summary x] \<and> summary_unit x = ''None''"
    by simp blast
  from r2 u display_unit_coercion [of ?e2 example_env Map.empty Map.empty]
  have c2: "\<exists>metrics' x. metric_entry example_env Map.empty (JObj ?e2)
         = Inr metrics' \<and> metrics' ''cadence'' = Some (Metric x) \<and> metric_unit x = ''rpm''"
    by auto
  from r3 u display_unit_coercion [of ?e3 example_env Map.empty Map.empty]
  have c3: "\<exists>metrics' x. metric_entry example_env Map.empty (JObj ?e3)
         = Inr metrics' \<and> metrics' ''cadence'' = Some (Metric x) \<and> metric_unit x = ''None''"
    by auto
  from c1 c2 c3 show ?thesis by simp
qed

section \<open>The shape of the result\<close>

lemma compile_quant_data_Inr:
  "compile_quant_data env clock s d = Inr stats \<longleftrightarrow>
     (\<exists>tz summaries metrics targets elapsed metrics' common derived.
        user_timezone env s = Inr tz \<and>
        preprocess_summaries env d = Inr summaries \<and>
        preprocess_metrics env d = Inr metrics \<and>
        target_metrics d = Inr targets \<and>
        actual_elapsed env clock s = Inr elapsed \<and>
        resolve_targets env elapsed metrics targets = Inr metrics' \<and>
        common_stats env tz s metrics' = Inr common \<and>
        derived_stats summaries metrics' = Inr derived \<and>
        stats = common @ derived)"
  unfolding compile_quant_data_def bind_r_eq_Inr by auto

lemma common_stats_Inr:
  "common_stats env tz s metrics = Inr common \<longleftrightarrow>
     (\<exists>start_v end_v duration_v incline_upper incline_lower speed_upper speed_lower.
        timestamp_value env tz s ''start_time'' = Inr start_v \<and>
        timestamp_value env tz s ''end_time'' = Inr end_v \<and>
        duration_value env s = Inr duration_v \<and>
        bound_value metrics ''target_incline'' ''upper'' = Inr incline_upper \<and>
        bound_value metrics ''target_incline'' ''lower'' = Inr incline_lower \<and>
        bound_value metrics ''target_speed'' ''upper'' = Inr speed_upper \<and>
        bound_value metrics ''target_speed'' ''lower'' = Inr speed_lower \<and>
        common =
         [mk_stat ''Start Time'' start_v None (Some TIMESTAMP) MEASUREMENT
            (Some ''mdi:timer-sand''),
          mk_stat ''End Time'' end_v None (Some TIMESTAMP) MEASUREMENT
            (Some ''mdi:timer-sand-complete''),
          mk_stat ''Duration'' duration_v (Some ''min'') None MEASUREMENT
            (Some ''mdi:timer-outline''),
          mk_stat ''Leaderboard: Rank''
            (Val (dict_get s ''leaderboard_rank'' (JInt 0)))
            None None MEASUREMENT (Some ''mdi:trophy-award''),
          mk_stat ''Leaderboard: Total Users''
            (Val (dict_get s ''total_leaderboard_users'' (JInt 0)))
            None None MEASUREMENT (Some ''mdi:account-group''),
          mk_stat ''Power Output'' (power_value env s)
            (Some ''Wh'') (Some ENERGY) MEASUREMENT None,
          mk_stat ''Target Incline Upper'' (Val incline_upper) (Some ''%'') None MEASUREMENT
            (Some ''mdi:slope-uphill''),
          mk_stat ''Target Incline Lower'' (Val incline_lower) (Some ''%'') None MEASUREMENT
            (Some ''mdi:slope-downhill''),
          mk_stat ''Target Speed Upper'' (Val speed_upper) (speed_unit metrics) None
            MEASUREMENT (Some ''mdi:speedometer''),
          mk_stat ''Target Speed Lower'' (Val speed_lower) (speed_unit metrics) None
            MEASUREMENT (Some ''mdi:speedometer-slow'')])"
  unfolding common_stats_def bind_r_eq_Inr by auto

lemma mk_stat_simps [simp]:
  "stat_name (mk_stat n v u dc sc ic) = n"
  "stat_value (mk_stat n v u dc sc ic) = v"
  "stat_unit (mk_stat n v u dc sc ic) = u"
  "stat_device_class (mk_stat n v u dc sc ic) = dc"
  "stat_state_class (mk_stat n v u dc sc ic) = sc"
  "stat_icon (mk_stat n v u dc sc ic) = ic"
  by (simp_all add: mk_stat_def)

lemma for_each_collect:
  assumes "for_each (\<lambda>acc c. bind_r (f c) (\<lambda>s. Inr (acc @ [s]))) acc cs = Inr r"
  shows "\<exists>ss. r = acc @ ss \<and> list_all2 (\<lambda>c s. f c = Inr s) cs ss"
  using assms
proof (induction cs arbitrary: acc)
  case Nil
  then show ?case by simp
next
  case (Cons c cs)
  from Cons.prems obtain s where s: "f c = Inr s"
    and rest: "for_each (\<lambda>acc c. bind_r (f c) (\<lambda>s. Inr (acc @ [s]))) (acc @ [s]) cs = Inr r"
    by (auto simp: bind_r_eq_Inr)
  from Cons.IH[OF rest] obtain ss where "r = (acc @ [s]) @ ss"
    and "list_all2 (\<lambda>c s. f c = Inr s) cs ss" by blast
  with s show ?case by (intro exI[of _ "s # ss"]) simp
qed

lemma for_each_collect_total:
  assumes "\<And>c. c \<in> set cs \<Longrightarrow> \<exists>s. f c = Inr s"
  shows "\<exists>r. for_each (\<lambda>acc c. bind_r (f c) (\<lambda>s. Inr (acc @ [s]))) acc cs = Inr r"
  using assms
proof (induction cs arbitrary: acc)
  case Nil
  then show ?case by simp
next
  case (Cons c cs)
  from Cons.prems[of c] obtain s where "f c = Inr s" by auto
  moreover from Cons.IH[of "acc @ [s]"] Cons.prems
  obtain r where "for_each (\<lambda>acc c. bind_r (f c) (\<lambda>s. Inr (acc @ [s]))) (acc @ [s]) cs = Inr r"
    by auto
  ultimately show ?case by simp
qed

lemma make_stat_Inr:
  assumes "make_stat data n a i = Inr st"
  shows "stat_name st = n" and "stat_state_class st = MEASUREMENT" and "stat_icon st = Some i"
    and "data = None \<Longrightarrow> stat_value st = Val JNull"
    and "data = Some x \<Longrightarrow> stat_value st = Val (getattr_value x a)"
  using assms by (auto simp: make_stat_def split: option.splits entity.splits)

lemma derived_stats_Inr:
  assumes "derived_stats summaries metrics = Inr derived"
  shows "list_all2 (\<lambda>c st. derived_call summaries metrics c = Inr st) derived_calls derived"
  using for_each_collect[OF assms[unfolded derived_stats_def]] by simp

lemma derived_names:
  assumes "list_all2 (\<lambda>c st. derived_call summaries metrics c = Inr st) cs ss"
  shows "map stat_name ss = map (\<lambda>c. fst (snd (snd c))) cs \<and>
         (\<forall>st \<in> set ss. stat_state_class st = MEASUREMENT)"
  using assms
proof (induction rule: list_all2_induct)
  case Nil
  then show ?case by simp
next
  case (Cons c cs st ss)
  obtain b k n a i where c: "c = (b, k, n, a, i)" by (cases c)
  with Cons.hyps(1) have "make_stat ((if b then metrics else summaries) k) n a i = Inr st"
    by simp
  from make_stat_Inr(1,2)[OF this] c Cons.IH show ?case by simp
qed

lemma compile_shape:
  assumes "compile_quant_data env clock s d = Inr stats"
  shows "map stat_name stats = stat_names"
    and "\<forall>st \<in> set stats. stat_state_class st = MEASUREMENT"
    and "length stats = 24"
proof -
  from assms obtain tz summaries metrics' common derived where
    c: "common_stats env tz s metrics' = Inr common" and
    d: "derived_stats summaries metrics' = Inr derived" and
    st: "stats = common @ derived"
    unfolding compile_quant_data_Inr by blast
  from derived_names[OF derived_stats_Inr[OF d]]
  have dn: "map stat_name derived = map (\<lambda>c. fst (snd (snd c))) derived_calls"
    and ds: "\<forall>st \<in> set derived. stat_state_class st = MEASUREMENT" by auto
  from c have cn: "map stat_name common = take 10 stat_names"
    and cs: "\<forall>st \<in> set common. stat_state_class st = MEASUREMENT"
    unfolding common_stats_Inr by (auto simp: stat_names_def)
  have "map (\<lambda>c. fst (snd (snd c))) derived_calls = drop 10 stat_names"
    by (simp add: derived_calls_def stat_names_def)
  with dn cn st show n: "map stat_name stats = stat_names"
    by simp
  from cs ds st show "\<forall>st \<in> set stats. stat_state_class st = MEASUREMENT" by auto
  from n have "length (map stat_name stats) = length stat_names" by simp
  then show "length stats = 24" by (simp add: stat_names_def)
qed

section \<open>Documents of the data model are compiled without an exception\<close>

lemma for_each_total_inv:
  assumes "P acc"
    and "\<And>a x. x \<in> set xs \<Longrightarrow> P a \<Longrightarrow> \<exists>a'. body a x = Inr a' \<and> P a'"
  shows "\<exists>r. for_each body acc xs = Inr r \<and> P r"
  using assms
proof (induction xs arbitrary: acc)
  case Nil
  then show ?case by simp
next
  case (Cons x xs)
  from Cons.prems(2)[of x acc] Cons.prems(1)
  obtain a' where a': "body acc x = Inr a'" "P a'" by auto
  from Cons.IH[OF a'(2)] Cons.prems(2)
  obtain r where "for_each body a' xs = Inr r \<and> P r" by auto
  with a'(1) show ?case by simp
qed

lemma is_dict_iff: "is_dict x \<longleftrightarrow> (\<exists>e. x = JObj e)"
  by (cases x) simp_all

lemma summaries_total:
  assumes "wf_detail d"
  shows "\<exists>m. preprocess_summaries env d = Inr m \<and> only_summaries m"
proof -
  from assms obtain xs where xs: "dict_get d ''summaries'' (JList []) = JList xs"
    and dicts: "list_all is_dict xs"
    by (auto simp: wf_detail_def dict_get_def split: option.splits json.splits)
  have "\<exists>r. for_each (summary_entry env) Map.empty xs = Inr r \<and> only_summaries r"
  proof (rule for_each_total_inv)
    show "only_summaries (Map.empty :: 'a pydict)" by (simp add: only_summaries_def)
  next
    fix a :: "'a pydict" and x
    assume "x \<in> set xs" and a: "only_summaries a"
    with dicts obtain e where "x = JObj e" by (auto simp: list_all_iff is_dict_iff)
    with a show "\<exists>a'. summary_entry env a x = Inr a' \<and> only_summaries a'"
      by (auto simp: summary_entry_dict Let_def only_summaries_def)
  qed
  with xs show ?thesis by (simp add: preprocess_summaries_def)
qed

lemma flatten_entry_wf:
  assumes "wf_metric_entry x"
  shows "flatten_entry env acc x = Inr (acc @ x # alternatives x)"
proof -
  from assms obtain e where e: "x = JObj e" by (cases x) (simp_all add: wf_metric_entry_def)
  from assms e consider "map_of e ''alternatives'' = None"
    | as where "map_of e ''alternatives'' = Some (JList as)"
    by (auto simp: wf_metric_entry_def split: option.splits json.splits)
  then show ?thesis
  proof cases
    case 1
    with e show ?thesis by (simp add: flatten_entry_def alternatives_def)
  next
    case 2
    with e show ?thesis by (simp add: flatten_entry_def alternatives_def)
  qed
qed

lemma flatten_loop_wf:
  assumes "list_all wf_metric_entry xs"
  shows "for_each (flatten_entry env) acc xs = Inr (acc @ concat (map (\<lambda>x. x # alternatives x) xs))"
  using assms by (induction xs arbitrary: acc) (simp_all add: flatten_entry_wf)

lemma alternatives_wf:
  "wf_metric_entry x \<Longrightarrow> wf_metric x \<and> list_all wf_metric (alternatives x)"
  by (auto simp: wf_metric_entry_def alternatives_def split: json.splits option.splits)

lemma flatten_total:
  assumes "wf_detail d"
  shows "\<exists>fl. flatten_metrics env d = Inr fl \<and> list_all wf_metric fl"
proof -
  from assms obtain xs where xs: "dict_get d ''metrics'' (JList []) = JList xs"
    and wf: "list_all wf_metric_entry xs"
    by (auto simp: wf_detail_def dict_get_def split: option.splits json.splits)
  from wf have "list_all wf_metric (concat (map (\<lambda>x. x # alternatives x) xs))"
    by (induction xs) (simp_all add: alternatives_wf)
  with xs flatten_loop_wf[OF wf, of env "[]"] show ?thesis
    by (simp add: flatten_metrics_def)
qed

lemma last_value_wf:
  assumes "wf_metric (JObj e)"
  shows "last_value env (JObj e) =
     Inr (case map_of e ''values'' of Some (JList vs) \<Rightarrow> if vs = [] then JNull else last vs
          | _ \<Rightarrow> JNull)"
  using assms
  by (auto simp: wf_metric_def last_value_def dict_get_def split: option.splits json.splits)

lemma metric_entry_wf:
  assumes "wf_metric x" and "metrics_inv a"
  shows "\<exists>a'. metric_entry env a x = Inr a' \<and> metrics_inv a'"
proof -
  from assms(1) obtain e where e: "x = JObj e" by (cases x) (simp_all add: wf_metric_def)
  from assms(1) e have h: "hashable (dict_get e ''slug'' JNull)" by (simp add: wf_metric_def)
  from assms(1) e obtain lv where lv: "last_value env (JObj e) = Inr lv"
    using last_value_wf by blast
  show ?thesis
  proof (cases "\<exists>k. map_of e ''slug'' = Some (JStr k)")
    case False
    then have "\<forall>k. dict_get e ''slug'' JNull \<noteq> JStr k" by (simp add: dict_get_slug)
    with h e assms(2) show ?thesis
      by (cases "dict_get e ''slug'' JNull") (simp_all add: metric_entry_def)
  next
    case True
    then obtain k where k: "map_of e ''slug'' = Some (JStr k)" ..
    show ?thesis
    proof (cases "map_of int_stats k")
      case (Some udc)
      then obtain u dc where udc: "map_of int_stats k = Some (u, dc)" by (cases udc) simp
      then have "k \<in> metric_slugs"
        by (auto simp: int_stats_def metric_slugs_def split: if_splits)
      with assms(2) show ?thesis
        unfolding e metric_entry_int[OF k udc] lv by (auto simp: metrics_inv_def)
    next
      case None
      show ?thesis
      proof (cases "k \<in> set float_stats")
        case True
        then have "k \<in> metric_slugs" by (auto simp: float_stats_def metric_slugs_def)
        with assms(2) show ?thesis
          unfolding e metric_entry_float[OF k True] lv by (auto simp: metrics_inv_def)
      next
        case False
        with None k e assms(2) show ?thesis by (simp add: metric_entry_def)
      qed
    qed
  qed
qed

lemma metrics_total:
  assumes "wf_detail d"
  shows "\<exists>m. preprocess_metrics env d = Inr m \<and> metrics_inv m"
proof -
  from flatten_total[OF assms] obtain fl where fl: "flatten_metrics env d = Inr fl"
    and wf: "list_all wf_metric fl" by blast
  have "\<exists>r. for_each (metric_entry env) Map.empty fl = Inr r \<and> metrics_inv r"
  proof (rule for_each_total_inv)
    show "metrics_inv (Map.empty :: 'a pydict)" by (simp add: metrics_inv_def)
  next
    fix a :: "'a pydict" and x
    assume "x \<in> set fl" and "metrics_inv a"
    with wf show "\<exists>a'. metric_entry env a x = Inr a' \<and> metrics_inv a'"
      by (auto simp: list_all_iff intro: metric_entry_wf)
  qed
  with fl show ?thesis by (simp add: preprocess_metrics_def)
qed

lemma target_metrics_wf:
  assumes "wf_detail d"
  shows "\<exists>ws. target_metrics d = Inr (JList ws) \<and> list_all wf_window ws"
proof (cases "map_of d ''target_metrics_performance_data''")
  case None
  then show ?thesis by (simp add: target_metrics_def dict_get_def)
next
  case (Some v)
  with assms obtain p where p: "v = JObj p"
    by (cases v) (simp_all add: wf_detail_def)
  show ?thesis
  proof (cases "map_of p ''target_metrics''")
    case None
    with Some p show ?thesis by (simp add: target_metrics_def dict_get_def)
  next
    case (Some t)
    with assms \<open>map_of d ''target_metrics_performance_data'' = Some v\<close> p
    obtain ws where "t = JList ws" and "list_all wf_window ws"
      by (cases t) (simp_all add: wf_detail_def)
    with Some \<open>map_of d ''target_metrics_performance_data'' = Some v\<close> p
    show ?thesis by (simp add: target_metrics_def)
  qed
qed

lemma actual_elapsed_wf:
  assumes "wf_summary env s" and "library_ok env clock s"
  shows "\<exists>el. actual_elapsed env clock s = Inr el"
proof (cases "map_of s ''start_time''")
  case None
  then show ?thesis by (simp add: actual_elapsed_def py_int_sub_def)
next
  case (Some v)
  with assms(1) obtain n where n: "num_of v = Some n"
    by (auto simp: wf_summary_def is_number_def)
  show ?thesis
  proof (cases n)
    case (NI i)
    with Some n show ?thesis by (simp add: actual_elapsed_def py_int_sub_def)
  next
    case (NF x)
    with n have v: "v = JFloat x" by (cases v) (simp_all split: if_splits)
    with assms(2) Some obtain r where "int_sub_float env (py_round env clock) x = Inr r"
      by (cases "int_sub_float env (py_round env clock) x")
         (auto simp: library_ok_def split: sum.splits)
    with Some v show ?thesis by (simp add: actual_elapsed_def py_int_sub_def)
  qed
qed

lemma target_bound_wf:
  assumes "wf_target_bound x" and "metrics_inv a"
  shows "\<exists>a'. target_bound a x = Inr a' \<and> metrics_inv a'"
proof -
  from assms(1) obtain m where m: "x = JObj m" by (cases x) (simp_all add: wf_target_bound_def)
  show ?thesis
  proof (cases "map_of m ''name'' = Some (JStr ''speed'') \<or> map_of m ''name'' = Some (JStr ''incline'')")
    case True
    with assms(1) m obtain u l where "map_of m ''upper'' = Some u" "map_of m ''lower'' = Some l"
      by (auto simp: wf_target_bound_def)
    with True m assms(2) show ?thesis
      by (auto simp: target_bound_def metrics_inv_def)
  next
    case False
    then have "dict_get m ''name'' JNull \<noteq> JStr ''speed''" "dict_get m ''name'' JNull \<noteq> JStr ''incline''"
      by (simp_all add: dict_get_slug)
    with m assms(2) show ?thesis by (simp add: target_bound_def)
  qed
qed

lemma target_window_wf:
  assumes "wf_window x" and "metrics_inv a"
  shows "\<exists>a'. target_window env el a x = Inr a' \<and> metrics_inv a'"
proof -
  from assms(1) obtain w where w: "x = JObj w" by (cases x) (simp_all add: wf_window_def)
  from assms(1) w obtain off ev sv ne ns ms where
    off: "map_of w ''offsets'' = Some (JObj off)" and
    ev: "map_of off ''end'' = Some ev" "num_of ev = Some ne" and
    sv: "map_of off ''start'' = Some sv" "num_of sv = Some ns" and
    ms: "map_of w ''metrics'' = Some (JList ms)" "list_all wf_target_bound ms"
    by (auto simp: wf_window_def is_number_def split: option.splits json.splits)
  have loop: "\<exists>r. for_each target_bound a ms = Inr r \<and> metrics_inv r"
  proof (rule for_each_total_inv[where P = metrics_inv])
    show "metrics_inv a" by (rule assms(2))
  next
    fix b :: "'a pydict" and y
    assume "y \<in> set ms" and "metrics_inv b"
    with ms(2) show "\<exists>a'. target_bound b y = Inr a' \<and> metrics_inv a'"
      by (auto simp: list_all_iff intro: target_bound_wf)
  qed
  with w off ev sv ms(1) assms(2) show ?thesis
    by (auto simp: target_window_def py_ge_num_def py_num_ge_def)
qed

lemma resolve_targets_wf:
  assumes "list_all wf_window ws" and "metrics_inv m"
  shows "\<exists>m'. resolve_targets env el m (JList ws) = Inr m' \<and> metrics_inv m'"
proof -
  have "\<exists>r. for_each (target_window env el) m ws = Inr r \<and> metrics_inv r"
  proof (rule for_each_total_inv[where P = metrics_inv])
    show "metrics_inv m" by (rule assms(2))
  next
    fix a :: "'a pydict" and x
    assume "x \<in> set ws" and "metrics_inv a"
    with assms(1) show "\<exists>a'. target_window env el a x = Inr a' \<and> metrics_inv a'"
      by (auto simp: list_all_iff intro: target_window_wf)
  qed
  then show ?thesis by (simp add: resolve_targets_def)
qed

lemma bound_value_inv:
  assumes "metrics_inv m" and "key \<in> {''target_speed'', ''target_incline''}"
  shows "\<exists>v. bound_value m key field = Inr v"
proof (cases "m key")
  case None
  then show ?thesis by (simp add: bound_value_def)
next
  case (Some v)
  from assms(1) Some have "(key \<in> metric_slugs \<and> (\<exists>x. v = Metric x)) \<or>
        (key \<in> {''target_speed'', ''target_incline''} \<and> (\<exists>u l. v = Bounds u l))"
    unfolding metrics_inv_def by blast
  moreover from assms(2) have "key \<notin> metric_slugs" by (auto simp: metric_slugs_def)
  ultimately obtain u l where "v = Bounds u l" by blast
  with Some show ?thesis by (simp add: bound_value_def)
qed

lemma timestamp_value_ok:
  assumes "case map_of s k of None \<Rightarrow> True | Some v \<Rightarrow> v = JNull \<or> \<not> isl (fromtimestamp env v tz)"
  shows "\<exists>v. timestamp_value env tz s k = Inr v"
proof (cases "map_of s k")
  case None
  then show ?thesis by (simp add: timestamp_value_def)
next
  case (Some v)
  show ?thesis
  proof (cases "v = JNull")
    case True
    with Some show ?thesis by (simp add: timestamp_value_def)
  next
    case False
    with assms Some obtain t where "fromtimestamp env v tz = Inr t"
      by (cases "fromtimestamp env v tz") auto
    with Some False show ?thesis by (simp add: timestamp_value_def)
  qed
qed

lemma ride_duration_get:
  assumes "case map_of s ''ride'' of None \<Rightarrow> True | Some v \<Rightarrow> is_dict v"
  shows "py_get (dict_get s ''ride'' (JObj [])) ''duration'' JNull = Inr (ride_duration s)"
proof (cases "map_of s ''ride''")
  case None
  then show ?thesis by (simp add: ride_duration_def dict_get_def)
next
  case (Some v)
  with assms obtain r where "v = JObj r" by (auto simp: is_dict_iff)
  with Some show ?thesis by (simp add: ride_duration_def)
qed

lemma duration_value_wf:
  assumes "wf_summary env s" and "library_ok env clock s"
  shows "\<exists>v. duration_value env s = Inr v"
proof -
  from assms(1) have g: "py_get (dict_get s ''ride'' (JObj [])) ''duration'' JNull
      = Inr (ride_duration s)"
    by (intro ride_duration_get) (simp add: wf_summary_def)
  show ?thesis
  proof (cases "py_truthy env (ride_duration s)")
    case False
    with g show ?thesis by (simp add: duration_value_def)
  next
    case True
    with assms(1) obtain n where n: "num_of (ride_duration s) = Some n"
      by (auto simp: wf_summary_def is_number_def)
    show ?thesis
    proof (cases n)
      case (NF x)
      with n g True show ?thesis by (simp add: duration_value_def py_truediv_def)
    next
      case (NI i)
      from True n NI have "i \<noteq> 0" by (cases "ride_duration s") (auto split: if_splits)
      with assms(2) n NI obtain q where "int_truediv env i 60 = Inr q"
        by (cases "int_truediv env i 60") (auto simp: library_ok_def split: sum.splits)
      with n NI g True show ?thesis by (simp add: duration_value_def py_truediv_def)
    qed
  qed
qed

lemma common_stats_wf:
  assumes "wf_summary env s" and "library_ok env clock s" and "user_timezone env s = Inr tz"
    and "metrics_inv m"
  shows "\<exists>common. common_stats env tz s m = Inr common"
proof -
  from assms(2,3) have
    "case map_of s ''start_time'' of None \<Rightarrow> True | Some v \<Rightarrow> v = JNull \<or> \<not> isl (fromtimestamp env v tz)"
    "case map_of s ''end_time'' of None \<Rightarrow> True | Some v \<Rightarrow> v = JNull \<or> \<not> isl (fromtimestamp env v tz)"
    by (simp_all add: library_ok_def)
  from timestamp_value_ok[OF this(1)] timestamp_value_ok[OF this(2)]
    duration_value_wf[OF assms(1,2)]
  obtain v1 v2 v3 where "timestamp_value env tz s ''start_time'' = Inr v1"
    "timestamp_value env tz s ''end_time'' = Inr v2" "duration_value env s = Inr v3"
    by blast
  moreover from
    bound_value_inv[OF assms(4), of "''target_incline''" "''upper''"]
    bound_value_inv[OF assms(4), of "''target_incline''" "''lower''"]
    bound_value_inv[OF assms(4), of "''target_speed''" "''upper''"]
    bound_value_inv[OF assms(4), of "''target_speed''" "''lower''"]
  obtain b1 b2 b3 b4 where "bound_value m ''target_incline'' ''upper'' = Inr b1"
    "bound_value m ''target_incline'' ''lower'' = Inr b2"
    "bound_value m ''target_speed'' ''upper'' = Inr b3"
    "bound_value m ''target_speed'' ''lower'' = Inr b4"
    by auto
  ultimately show ?thesis by (simp add: common_stats_def)
qed

lemma derived_stats_wf:
  assumes "only_summaries sm" and "metrics_inv m"
  shows "\<exists>derived. derived_stats sm m = Inr derived"
  unfolding derived_stats_def
proof (rule for_each_collect_total)
  fix c assume c: "c \<in> set derived_calls"
  obtain b k n a i where c': "c = (b, k, n, a, i)" by (cases c)
  show "\<exists>st. derived_call sm m c = Inr st"
  proof (cases b)
    case False
    show ?thesis
    proof (cases "sm k")
      case None
      with False c' show ?thesis by (simp add: make_stat_def)
    next
      case (Some v)
      with assms(1) obtain x where "v = Summary x" unfolding only_summaries_def by blast
      with Some False c' show ?thesis by (simp add: make_stat_def)
    qed
  next
    case True
    with c c' have "k \<in> metric_slugs"
      by (auto simp: derived_calls_def metric_slugs_def)
    then have "k \<notin> {''target_speed'', ''target_incline''}"
      by (auto simp: metric_slugs_def)
    have nt: "k \<notin> {''target_speed'', ''target_incline''}" by fact
    show ?thesis
    proof (cases "m k")
      case None
      with True c' show ?thesis by (simp add: make_stat_def)
    next
      case (Some v)
      with assms(2) have "(k \<in> metric_slugs \<and> (\<exists>x. v = Metric x)) \<or>
        (k \<in> {''target_speed'', ''target_incline''} \<and> (\<exists>u l. v = Bounds u l))"
        unfolding metrics_inv_def by blast
      with nt obtain x where "v = Metric x" by blast
      with Some True c' show ?thesis by (simp add: make_stat_def)
    qed
  qed
qed

lemma compile_total:
  assumes "wf_summary env s" and "library_ok env clock s" and "wf_detail d"
  shows "\<exists>stats. compile_quant_data env clock s d = Inr stats"
proof -
  from assms(2) obtain tz where tz: "user_timezone env s = Inr tz"
    by (cases "user_timezone env s") (simp_all add: library_ok_def)
  from summaries_total[OF assms(3)] obtain sm where
    sm: "preprocess_summaries env d = Inr sm" "only_summaries sm" by blast
  from metrics_total[OF assms(3)] obtain m where
    m: "preprocess_metrics env d = Inr m" "metrics_inv m" by blast
  from target_metrics_wf[OF assms(3)] obtain ws where
    ws: "target_metrics d = Inr (JList ws)" "list_all wf_window ws" by blast
  from actual_elapsed_wf[OF assms(1,2)] obtain el where
    el: "actual_elapsed env clock s = Inr el" by blast
  from resolve_targets_wf[OF ws(2) m(2)] obtain m' where
    m': "resolve_targets env el m (JList ws) = Inr m'" "metrics_inv m'" by blast
  from common_stats_wf[OF assms(1,2) tz m'(2)] obtain common where
    c: "common_stats env tz s m' = Inr common" by blast
  from derived_stats_wf[OF sm(2) m'(2)] obtain derived :: "('a, 'c) PelotonStat list" where
    dv: "derived_stats sm m' = Inr derived" by blast
  from tz sm(1) m(1) ws(1) el m'(1) c dv show ?thesis
    by (simp add: compile_quant_data_def)
qed

section \<open>The list of stats\<close>

text \<open>
  Whenever \<^verbatim>\<open>compile_quant_data\<close> returns, it returns exactly 24 stats whose
  labels are, in this order, the ten common stats (Start Time, End Time, Duration,
  Leaderboard: Rank, Leaderboard: Total Users, Power Output, Target Incline Upper, Target
  Incline Lower, Target Speed Upper, Target Speed Lower) and the fourteen derived stats
  (Distance, Calories, Heart Rate: Average and Max, Resistance: Average and Max, Speed:
  Average, Max and Most Recent, Incline: Average, Max and Most Recent, Cadence: Average
  and Max), each with the state class \<^verbatim>\<open>measurement\<close>.  And it does return on every
  pair of documents of the data model, whichever of their optional fields are absent,
  as long as the library calls it makes do not raise.  The data model gives every target
  window its offsets and its metrics; what the routine does without them is the
  subject of the section on exceptions.
\<close>

lemma compile_quant_data_shape:
  "(\<forall>stats. compile_quant_data env clock s d = Inr stats \<longrightarrow>
      length stats = 24 \<and> map stat_name stats = stat_names \<and>
      (\<forall>st \<in> set stats. stat_state_class st = MEASUREMENT)) \<and>
   (wf_summary env s \<and> library_ok env clock s \<and> wf_detail d \<longrightarrow>
      (\<exists>stats. compile_quant_data env clock s d = Inr stats))"
  using compile_shape[of env clock s d] compile_total[of env s clock d] by blast

lemma compile_quant_data_shape_example:
  "wf_summary example_env [(''start_time'', JInt 1000), (''timezone'', JStr ''UTC'')] \<and>
   library_ok example_env 1000 [(''start_time'', JInt 1000), (''timezone'', JStr ''UTC'')] \<and>
   wf_detail [(''summaries'', JList [JObj [(''slug'', JStr ''calories''), (''value'', JInt 250)]]),
              (''metrics'', JList []) :: string \<times> rat json] \<and>
   (\<exists>stats. compile_quant_data example_env 1000
        [(''start_time'', JInt 1000), (''timezone'', JStr ''UTC'')]
        [(''summaries'', JList [JObj [(''slug'', JStr ''calories''), (''value'', JInt 250)]]),
         (''metrics'', JList [])] = Inr stats \<and>
      length stats = 24 \<and> map stat_name stats = stat_names \<and>
      (\<forall>st \<in> set stats. stat_state_class st = MEASUREMENT))"
proof -
  let ?s = "[(''start_time'', JInt 1000), (''timezone'', JStr ''UTC'') :: string \<times> rat json]"
  let ?d = "[(''summaries'', JList [JObj [(''slug'', JStr ''calories''), (''value'', JInt 250)]]),
             (''metrics'', JList []) :: string \<times> rat json]"
  have 1: "wf_summary example_env ?s"
    by (simp add: wf_summary_def is_number_def ride_duration_def)
  have 2: "library_ok example_env 1000 ?s"
    by (simp add: library_ok_def user_timezone_def dict_get_def example_env_def
        example_gettz_def example_fromtimestamp_def ride_duration_def)
  have 3: "wf_detail ?d"
    by (simp add: wf_detail_def)
  from 1 2 3 compile_quant_data_shape[of example_env 1000 ?s ?d]
  show ?thesis by blast
qed

section \<open>The value of each stat\<close>

lemma compile_parts:
  assumes "compile_quant_data env clock s d = Inr stats"
  shows "\<exists>tz summaries metrics targets elapsed metrics'.
     user_timezone env s = Inr tz \<and>
     preprocess_summaries env d = Inr summaries \<and>
     preprocess_metrics env d = Inr metrics \<and>
     target_metrics d = Inr targets \<and>
     actual_elapsed env clock s = Inr elapsed \<and>
     resolve_targets env elapsed metrics targets = Inr metrics' \<and>
     timestamp_value env tz s ''start_time'' = Inr (stat_value (stats ! 0)) \<and>
     timestamp_value env tz s ''end_time'' = Inr (stat_value (stats ! 1)) \<and>
     duration_value env s = Inr (stat_value (stats ! 2)) \<and>
     stat_value (stats ! 3) = Val (dict_get s ''leaderboard_rank'' (JInt 0)) \<and>
     stat_value (stats ! 4) = Val (dict_get s ''total_leaderboard_users'' (JInt 0)) \<and>
     stat_value (stats ! 5) = power_value env s \<and>
     (\<exists>v. bound_value metrics' ''target_incline'' ''upper'' = Inr v \<and>
          stat_value (stats ! 6) = Val v) \<and>
     (\<exists>v. bound_value metrics' ''target_incline'' ''lower'' = Inr v \<and>
          stat_value (stats ! 7) = Val v) \<and>
     (\<exists>v. bound_value metrics' ''target_speed'' ''upper'' = Inr v \<and>
          stat_value (stats ! 8) = Val v) \<and>
     (\<exists>v. bound_value metrics' ''target_speed'' ''lower'' = Inr v \<and>
          stat_value (stats ! 9) = Val v) \<and>
     stat_unit (stats ! 8) = speed_unit metrics' \<and>
     stat_unit (stats ! 9) = speed_unit metrics' \<and>
     (\<forall>i < 14. derived_call summaries metrics' (derived_calls ! i) = Inr (stats ! (10 + i)))"
proof -
  from assms obtain tz summaries metrics targets elapsed metrics' common derived where
    p: "user_timezone env s = Inr tz"
       "preprocess_summaries env d = Inr summaries"
       "preprocess_metrics env d = Inr metrics"
       "target_metrics d = Inr targets"
       "actual_elapsed env clock s = Inr elapsed"
       "resolve_targets env elapsed metrics targets = Inr metrics'" and
    c: "common_stats env tz s metrics' = Inr common" and
    dv: "derived_stats summaries metrics' = Inr derived" and
    st: "stats = common @ derived"
    unfolding compile_quant_data_Inr by blast
  from c obtain start_v end_v duration_v iu il su sl where
    v: "timestamp_value env tz s ''start_time'' = Inr start_v"
       "timestamp_value env tz s ''end_time'' = Inr end_v"
       "duration_value env s = Inr duration_v"
       "bound_value metrics' ''target_incline'' ''upper'' = Inr iu"
       "bound_value metrics' ''target_incline'' ''lower'' = Inr il"
       "bound_value metrics' ''target_speed'' ''upper'' = Inr su"
       "bound_value metrics' ''target_speed'' ''lower'' = Inr sl" and
    common: "common =
         [mk_stat ''Start Time'' start_v None (Some TIMESTAMP) MEASUREMENT
            (Some ''mdi:timer-sand''),
          mk_stat ''End Time'' end_v None (Some TIMESTAMP) MEASUREMENT
            (Some ''mdi:timer-sand-complete''),
          mk_stat ''Duration'' duration_v (Some ''min'') None MEASUREMENT
            (Some ''mdi:timer-outline''),
          mk_stat ''Leaderboard: Rank''
            (Val (dict_get s ''leaderboard_rank'' (JInt 0)))
            None None MEASUREMENT (Some ''mdi:trophy-award''),
          mk_stat ''Leaderboard: Total Users''
            (Val (dict_get s ''total_leaderboard_users'' (JInt 0)))
            None None MEASUREMENT (Some ''mdi:account-group''),
          mk_stat ''Power Output'' (power_value env s)
            (Some ''Wh'') (Some ENERGY) MEASUREMENT None,
          mk_stat ''Target Incline Upper'' (Val iu) (Some ''%'') None MEASUREMENT
            (Some ''mdi:slope-uphill''),
          mk_stat ''Target Incline Lower'' (Val il) (Some ''%'') None MEASUREMENT
            (Some ''mdi:slope-downhill''),
          mk_stat ''Target Speed Upper'' (Val su) (speed_unit metrics') None
            MEASUREMENT (Some ''mdi:speedometer''),
          mk_stat ''Target Speed Lower'' (Val sl) (speed_unit metrics') None
            MEASUREMENT (Some ''mdi:speedometer-slow'')]"
    unfolding common_stats_Inr by blast
  have len: "length common = 10" by (simp add: common)
  from derived_stats_Inr[OF dv]
  have la: "list_all2 (\<lambda>c st. derived_call summaries metrics' c = Inr st) derived_calls derived" .
  have dl: "length derived_calls = 14" by (simp add: derived_calls_def)
  have d: "\<forall>i < 14. derived_call summaries metrics' (derived_calls ! i) = Inr (stats ! (10 + i))"
  proof (intro allI impI)
    fix i :: nat assume "i < 14"
    with la dl have "derived_call summaries metrics' (derived_calls ! i) = Inr (derived ! i)"
      by (simp add: list_all2_conv_all_nth)
    moreover have "stats ! (10 + i) = derived ! i"
      unfolding st using len by (simp add: nth_append)
    ultimately show "derived_call summaries metrics' (derived_calls ! i) = Inr (stats ! (10 + i))"
      by simp
  qed
  have n: "stats ! 0 = common ! 0" "stats ! 1 = common ! 1" "stats ! 2 = common ! 2"
    "stats ! 3 = common ! 3" "stats ! 4 = common ! 4" "stats ! 5 = common ! 5"
    "stats ! 6 = common ! 6" "stats ! 7 = common ! 7" "stats ! 8 = common ! 8"
    "stats ! 9 = common ! 9"
    unfolding st using len by (simp_all add: nth_append)
  have vals: "stat_value (stats ! 0) = start_v" "stat_value (stats ! 1) = end_v"
    "stat_value (stats ! 2) = duration_v"
    "stat_value (stats ! 3) = Val (dict_get s ''leaderboard_rank'' (JInt 0))"
    "stat_value (stats ! 4) = Val (dict_get s ''total_leaderboard_users'' (JInt 0))"
    "stat_value (stats ! 5) = power_value env s"
    "stat_value (stats ! 6) = Val iu" "stat_value (stats ! 7) = Val il"
    "stat_value (stats ! 8) = Val su" "stat_value (stats ! 9) = Val sl"
    "stat_unit (stats ! 8) = speed_unit metrics'" "stat_unit (stats ! 9) = speed_unit metrics'"
    unfolding n common by simp_all
  from p v d show ?thesis unfolding vals by blast
qed

section \<open>Running the model\<close>

lemmas compile_defs =
  compile_quant_data_def user_timezone_def preprocess_summaries_def preprocess_metrics_def
  flatten_metrics_def target_metrics_def actual_elapsed_def py_int_sub_def resolve_targets_def
  target_window_def target_bound_def py_ge_num_def py_num_ge_def
  common_stats_def timestamp_value_def duration_value_def bound_value_def power_value_def
  speed_unit_def derived_stats_def derived_calls_def make_stat_def mk_stat_def dict_get_def
  summary_entry_def flatten_entry_def metric_entry_def last_value_def getattr_value_def
  py_truediv_def int_stats_def float_stats_def
  example_env_def example_gettz_def example_fromtimestamp_def round_half_even_def

section \<open>Exceptions\<close>

text \<open>
  Claim C1 says that the routine returns its list of 24 stats on every pair of
  mappings, whichever input fields are absent.  It does not when the absent field is
  one the target loop reads with a subscript: for a window that has an end offset not
  yet passed and no start offset, and for an active window that has no \<^verbatim>\<open>metrics\<close>,
  the routine raises \<^verbatim>\<open>KeyError\<close> and returns no list.  Nor does it for a summary whose
  \<^verbatim>\<open>start_time\<close> is null: the default of the lookup covers the missing key only, and
  the subtraction from \<^verbatim>\<open>now\<close> raises \<^verbatim>\<open>TypeError\<close>.
\<close>

theorem no_list_without_window_fields:
  "compile_quant_data example_env 1000 [(''start_time'', JInt 700)]
     [(''target_metrics_performance_data'',
       JObj [(''target_metrics'', JList
         [JObj [(''offsets'', JObj [(''end'', JInt 600)]), (''metrics'', JList [])]])])]
     = Inl KeyError \<and>
   compile_quant_data example_env 1000 []
     [(''target_metrics_performance_data'',
       JObj [(''target_metrics'', JList
         [JObj [(''offsets'', JObj [(''start'', JInt 0), (''end'', JInt 2000)])]])])]
     = Inl KeyError \<and>
   compile_quant_data example_env 1000 [(''start_time'', JNull)] [] = Inl TypeError"
  by (simp add: compile_defs)

text \<open>
  Claim C7 says that the routine never raises, and names a target window without its
  \<^verbatim>\<open>offsets\<close> and a target metric without its \<^verbatim>\<open>upper\<close> among the anomalies that only
  give \<^verbatim>\<open>None\<close>.  The routine reads both with a subscript: on a window without
  \<^verbatim>\<open>offsets\<close>, and on an active window whose \<^verbatim>\<open>speed\<close> metric has no \<^verbatim>\<open>upper\<close>, it raises
  \<^verbatim>\<open>KeyError\<close> and returns no list at all.
\<close>

theorem missing_target_fields_raise:
  "compile_quant_data example_env 1000 []
     [(''target_metrics_performance_data'',
       JObj [(''target_metrics'', JList [JObj [(''metrics'', JList [])]])])]
     = Inl KeyError \<and>
   compile_quant_data example_env 1000 [(''start_time'', JInt 700)]
     [(''target_metrics_performance_data'',
       JObj [(''target_metrics'', JList
         [JObj [(''offsets'', JObj [(''start'', JInt 0), (''end'', JInt 600)]),
                (''metrics'', JList [JObj [(''name'', JStr ''speed''), (''lower'', JInt 1)]])]])])]
     = Inl KeyError"
  by (simp add: compile_defs)

section \<open>Time zone\<close>

text \<open>
  Claim C8 says that the zone of the Start Time and End Time stats falls back to UTC
  when the summary's \<^verbatim>\<open>timezone\<close> names a zone that cannot be resolved.  The routine
  passes the name to \<^verbatim>\<open>gettz\<close> and uses what comes back: where the lookup finds no zone
  for the name, the datetime is built with no zone, not with UTC.
\<close>

theorem unresolvable_zone_counterexample:
  "user_timezone example_env [(''start_time'', JInt 1000), (''timezone'', JStr ''Mars/Olympus'')]
     = Inr None \<and>
   gettz example_env (JStr ''UTC'') = Inr (Some ''UTC'') \<and>
   \<not> isl (compile_quant_data example_env 1000
          [(''start_time'', JInt 1000), (''timezone'', JStr ''Mars/Olympus'')] []) \<and>
   stat_value (projr (compile_quant_data example_env 1000
          [(''start_time'', JInt 1000), (''timezone'', JStr ''Mars/Olympus'')] []) ! 0)
     = Datetime (1000, None)"
  by (simp add: compile_defs)

text \<open>
  Claim C8, amended.  The zone is the result of \<^verbatim>\<open>gettz\<close> on the summary's \<^verbatim>\<open>timezone\<close>
  when the field is present and truthy, and the result of \<^verbatim>\<open>gettz("UTC")\<close> when the
  field is absent or falsy (null, the empty string).  Whatever that lookup returns, a
  zone or none, is the zone the Start Time and End Time stats are built with when
  their epoch field is present and not null; otherwise their value is \<^verbatim>\<open>None\<close>.
\<close>

theorem timezone_resolution:
  "user_timezone env s =
     (case map_of s ''timezone'' of
        None \<Rightarrow> gettz env (JStr ''UTC'')
      | Some v \<Rightarrow> if py_truthy env v then gettz env v else gettz env (JStr ''UTC'')) \<and>
   (\<forall>stats. compile_quant_data env clock s d = Inr stats \<longrightarrow>
      (\<exists>tz. user_timezone env s = Inr tz \<and>
         (case map_of s ''start_time'' of
            None \<Rightarrow> stat_value (stats ! 0) = Val JNull
          | Some v \<Rightarrow>
              if v = JNull then stat_value (stats ! 0) = Val JNull
              else \<exists>t. fromtimestamp env v tz = Inr t \<and> stat_value (stats ! 0) = Datetime t) \<and>
         (case map_of s ''end_time'' of
            None \<Rightarrow> stat_value (stats ! 1) = Val JNull
          | Some v \<Rightarrow>
              if v = JNull then stat_value (stats ! 1) = Val JNull
              else \<exists>t. fromtimestamp env v tz = Inr t \<and> stat_value (stats ! 1) = Datetime t)))"
proof (intro conjI allI impI)
  show "user_timezone env s =
     (case map_of s ''timezone'' of
        None \<Rightarrow> gettz env (JStr ''UTC'')
      | Some v \<Rightarrow> if py_truthy env v then gettz env v else gettz env (JStr ''UTC''))"
    by (simp add: user_timezone_def dict_get_def Let_def split: option.splits)
next
  fix stats assume "compile_quant_data env clock s d = Inr stats"
  from compile_parts[OF this] obtain tz where tz: "user_timezone env s = Inr tz"
    and a: "timestamp_value env tz s ''start_time'' = Inr (stat_value (stats ! 0))"
    and b: "timestamp_value env tz s ''end_time'' = Inr (stat_value (stats ! 1))"
    by blast
  have ts: "case map_of s k of
            None \<Rightarrow> v = Val JNull
          | Some x \<Rightarrow>
              if x = JNull then v = Val JNull
              else \<exists>t. fromtimestamp env x tz = Inr t \<and> v = Datetime t"
    if "timestamp_value env tz s k = Inr v" for k v
    using that
    by (auto simp: timestamp_value_def dict_get_def bind_r_eq_Inr split: option.splits if_splits)
  from tz ts[OF a] ts[OF b]
  show "\<exists>tz. user_timezone env s = Inr tz \<and>
         (case map_of s ''start_time'' of
            None \<Rightarrow> stat_value (stats ! 0) = Val JNull
          | Some v \<Rightarrow>
              if v = JNull then stat_value (stats ! 0) = Val JNull
              else \<exists>t. fromtimestamp env v tz = Inr t \<and> stat_value (stats ! 0) = Datetime t) \<and>
         (case map_of s ''end_time'' of
            None \<Rightarrow> stat_value (stats ! 1) = Val JNull
          | Some v \<Rightarrow>
              if v = JNull then stat_value (stats ! 1) = Val JNull
              else \<exists>t. fromtimestamp env v tz = Inr t \<and> stat_value (stats ! 1) = Datetime t)"
    by blast
qed

theorem timezone_resolution_witness:
  "\<exists>stats. compile_quant_data example_env 1000
       [(''start_time'', JInt 1000), (''timezone'', JStr ''Europe/Paris'')] [] = Inr stats \<and>
     user_timezone example_env [(''start_time'', JInt 1000), (''timezone'', JStr ''Europe/Paris'')]
       = Inr (Some ''Europe/Paris'') \<and>
     stat_value (stats ! 0) = Datetime (1000, Some ''Europe/Paris'') \<and>
     stat_value (stats ! 1) = Val JNull"
proof -
  let ?s = "[(''start_time'', JInt 1000), (''timezone'', JStr ''Europe/Paris'') :: string \<times> rat json]"
  have "\<not> isl (compile_quant_data example_env 1000 ?s [])"
    by (simp add: compile_defs)
  then obtain stats where st: "compile_quant_data example_env 1000 ?s [] = Inr stats"
    by (cases "compile_quant_data example_env 1000 ?s []") auto
  have tz: "user_timezone example_env ?s = Inr (Some ''Europe/Paris'')"
    by (simp add: compile_defs)
  have ft: "fromtimestamp example_env (JInt 1000) (Some ''Europe/Paris'')
     = Inr (1000, Some ''Europe/Paris'')"
    by (simp add: compile_defs)
  from timezone_resolution[of example_env ?s 1000 "[]"] st tz ft
  have "stat_value (stats ! 0) = Datetime (1000, Some ''Europe/Paris'') \<and>
     stat_value (stats ! 1) = Val JNull"
    by auto
  with st tz show ?thesis by blast
qed

section \<open>The inputs of the routine\<close>



















section \<open>Duration and power output\<close>

lemma stat_name_nth:
  assumes "compile_quant_data env clock s d = Inr stats" and "i < 24"
  shows "stat_name (stats ! i) = stat_names ! i"
proof -
  from compile_shape(1,3)[OF assms(1)] assms(2)
  have "map stat_name stats ! i = stat_names ! i" and "i < length stats" by simp_all
  then show ?thesis by simp
qed

lemma duration_value_Inr:
  assumes "duration_value env s = Inr v"
  shows "(map_of s ''ride'' = None \<or> (\<exists>r. map_of s ''ride'' = Some (JObj r))) \<and>
    (if py_truthy env (ride_duration s)
     then \<exists>q. py_truediv env (ride_duration s) 60 = Inr q \<and> v = Val (JFloat q)
     else v = Val JNull)"
proof (cases "map_of s ''ride''")
  case None
  with assms show ?thesis
    by (simp add: duration_value_def ride_duration_def dict_get_def)
next
  case (Some x)
  with assms obtain r where r: "x = JObj r"
    by (cases x) (simp_all add: duration_value_def)
  with Some assms show ?thesis
    by (auto simp: duration_value_def ride_duration_def bind_r_eq_Inr split: if_splits)
qed

text \<open>
  Claim C6.  In the list the routine returns, the Duration stat (the third) is
  \<^verbatim>\<open>ride.duration / 60\<close> when the summary's nested \<^verbatim>\<open>ride.duration\<close> is present and
  truthy, and \<^verbatim>\<open>None\<close> when \<^verbatim>\<open>ride\<close> or \<^verbatim>\<open>duration\<close> is absent, or the duration is falsy
  (null, zero).  The Power Output stat (the sixth) is \<^verbatim>\<open>round(total_work / 3600, 4)\<close> when
  \<^verbatim>\<open>total_work\<close> is present and a float, and \<^verbatim>\<open>None\<close> otherwise: when it is absent and
  when it is an integer.  The quotient and the rounding are the library's float
  operations: the true division of an integer by 60 for an integer duration (and
  for \<^verbatim>\<open>True\<close>, which counts as 1), the division of a float by 60 for a float
  duration, which is falsy when it is zero.
\<close>

theorem numeric_conversions:
  assumes "compile_quant_data env clock s d = Inr stats"
  shows "stat_name (stats ! 2) = ''Duration'' \<and>
    (if py_truthy env (ride_duration s)
     then \<exists>q. py_truediv env (ride_duration s) 60 = Inr q \<and>
              stat_value (stats ! 2) = Val (JFloat q)
     else stat_value (stats ! 2) = Val JNull) \<and>
    (ride_duration s = JNull \<or> ride_duration s = JInt 0 \<longrightarrow>
       stat_value (stats ! 2) = Val JNull) \<and>
    (\<forall>n. ride_duration s = JInt n \<and> n \<noteq> 0 \<longrightarrow>
       (\<exists>q. int_truediv env n 60 = Inr q \<and> stat_value (stats ! 2) = Val (JFloat q))) \<and>
    (\<forall>x. ride_duration s = JFloat x \<longrightarrow>
       stat_value (stats ! 2) =
         (if float_truthy env x then Val (JFloat (float_truediv env x 60)) else Val JNull)) \<and>
    (\<forall>b. ride_duration s = JBool b \<longrightarrow>
       (if b then \<exists>q. int_truediv env 1 60 = Inr q \<and> stat_value (stats ! 2) = Val (JFloat q)
        else stat_value (stats ! 2) = Val JNull)) \<and>
    stat_name (stats ! 5) = ''Power Output'' \<and>
    stat_value (stats ! 5) =
      (case map_of s ''total_work'' of
         Some (JFloat total_work) \<Rightarrow>
           Val (JFloat (float_round env (float_truediv env total_work 3600) 4))
       | _ \<Rightarrow> Val JNull) \<and>
    (map_of s ''total_work'' = None \<or> (\<exists>i. map_of s ''total_work'' = Some (JInt i)) \<longrightarrow>
       stat_value (stats ! 5) = Val JNull)"
proof -
  from compile_parts[OF assms] have
    d: "duration_value env s = Inr (stat_value (stats ! 2))" and
    p: "stat_value (stats ! 5) = power_value env s"
    by blast+
  from duration_value_Inr[OF d] have
    dur: "if py_truthy env (ride_duration s)
     then \<exists>q. py_truediv env (ride_duration s) 60 = Inr q \<and>
              stat_value (stats ! 2) = Val (JFloat q)
     else stat_value (stats ! 2) = Val JNull" by simp
  have n2: "stat_name (stats ! 2) = ''Duration''"
    using stat_name_nth[OF assms, of 2] by (simp add: stat_names_def)
  have n5: "stat_name (stats ! 5) = ''Power Output''"
    using stat_name_nth[OF assms, of 5] by (simp add: stat_names_def)
  have falsy: "ride_duration s = JNull \<or> ride_duration s = JInt 0 \<longrightarrow>
       stat_value (stats ! 2) = Val JNull"
    using dur by auto
  have int: "\<forall>n. ride_duration s = JInt n \<and> n \<noteq> 0 \<longrightarrow>
       (\<exists>q. int_truediv env n 60 = Inr q \<and> stat_value (stats ! 2) = Val (JFloat q))"
    using dur by (auto simp: py_truediv_def)
  have flt: "\<forall>x. ride_duration s = JFloat x \<longrightarrow>
       stat_value (stats ! 2) =
         (if float_truthy env x then Val (JFloat (float_truediv env x 60)) else Val JNull)"
    using dur by (auto simp: py_truediv_def)
  have bl: "\<forall>b. ride_duration s = JBool b \<longrightarrow>
       (if b then \<exists>q. int_truediv env 1 60 = Inr q \<and> stat_value (stats ! 2) = Val (JFloat q)
        else stat_value (stats ! 2) = Val JNull)"
    using dur by (auto simp: py_truediv_def)
  have pw: "stat_value (stats ! 5) =
      (case map_of s ''total_work'' of
         Some (JFloat total_work) \<Rightarrow>
           Val (JFloat (float_round env (float_truediv env total_work 3600) 4))
       | _ \<Rightarrow> Val JNull)"
    unfolding p power_value_def ..
  have pn: "map_of s ''total_work'' = None \<or> (\<exists>i. map_of s ''total_work'' = Some (JInt i)) \<longrightarrow>
       stat_value (stats ! 5) = Val JNull"
    unfolding pw by auto
  from n2 dur falsy int flt bl n5 pw pn show ?thesis by blast
qed

theorem numeric_conversions_witness:
  "(\<exists>stats. compile_quant_data example_env 1000
       [(''ride'', JObj [(''duration'', JInt 1800)]), (''total_work'', JFloat 7200)] [] = Inr stats \<and>
     stat_value (stats ! 2) = Val (JFloat 30) \<and>
     stat_value (stats ! 5) = Val (JFloat 2)) \<and>
   (\<exists>stats. compile_quant_data example_env 1000
       [(''ride'', JObj [(''duration'', JFloat 90)]), (''total_work'', JInt 7200)] [] = Inr stats \<and>
     stat_value (stats ! 2) = Val (JFloat (3 / 2)) \<and>
     stat_value (stats ! 5) = Val JNull)"
proof -
  let ?s = "[(''ride'', JObj [(''duration'', JInt 1800)]), (''total_work'', JFloat 7200)
             :: string \<times> rat json]"
  let ?s' = "[(''ride'', JObj [(''duration'', JFloat 90)]), (''total_work'', JInt 7200)
             :: string \<times> rat json]"
  have "\<not> isl (compile_quant_data example_env 1000 ?s [])"
    by (simp add: compile_defs py_truediv_def)
  then obtain stats where st: "compile_quant_data example_env 1000 ?s [] = Inr stats"
    by (cases "compile_quant_data example_env 1000 ?s []") auto
  have rd: "ride_duration ?s = JInt 1800" by (simp add: ride_duration_def)
  have q: "int_truediv example_env 1800 60 = Inr 30" by (simp add: example_env_def)
  have "\<lfloor>20000 :: rat\<rfloor> = 20000" by linarith
  then have w: "float_round example_env (float_truediv example_env 7200 3600) 4 = 2"
    by (simp add: example_env_def round_half_even_def)
  from numeric_conversions[OF st] rd q w
  have 1: "stat_value (stats ! 2) = Val (JFloat 30) \<and> stat_value (stats ! 5) = Val (JFloat 2)"
    by simp
  have "\<not> isl (compile_quant_data example_env 1000 ?s' [])"
    by (simp add: compile_defs py_truediv_def)
  then obtain stats' where st': "compile_quant_data example_env 1000 ?s' [] = Inr stats'"
    by (cases "compile_quant_data example_env 1000 ?s' []") auto
  have rd': "ride_duration ?s' = JFloat 90" by (simp add: ride_duration_def)
  have t: "float_truthy example_env 90" "float_truediv example_env 90 60 = 3 / 2"
    by (simp_all add: example_env_def)
  from numeric_conversions[OF st'] rd' t
  have 2: "stat_value (stats' ! 2) = Val (JFloat (3 / 2)) \<and> stat_value (stats' ! 5) = Val JNull"
    by simp
  from st 1 st' 2 show ?thesis by blast
qed

section \<open>The metric preprocessor\<close>

lemma int_stats_required:
  "map_of int_stats k = Some (u, dc) \<Longrightarrow> required_type k = Some isinstance_int"
  by (auto simp: int_stats_def required_type_def split: if_splits)

lemma float_stats_required:
  "k \<in> set float_stats \<Longrightarrow> required_type k = Some isinstance_float"
  by (auto simp: float_stats_def required_type_def)

lemma not_required:
  "map_of int_stats k = None \<Longrightarrow> k \<notin> set float_stats \<Longrightarrow> required_type k = None"
  by (auto simp: int_stats_def float_stats_def required_type_def split: if_splits)

lemma metric_entry_Inr:
  fixes env :: "('f, 'z, 't) py_env"
  assumes "metric_entry env b x = Inr b'"
  shows "if py_get x ''slug'' JNull = Inr (JStr k)
     then (case required_type k of
             None \<Rightarrow> b' k = b k
           | Some ty \<Rightarrow>
               \<exists>e mt lv. x = JObj e \<and> last_value env x = Inr lv \<and> b' k = Some (Metric mt) \<and>
                 max_val mt = type_checked ty (dict_get e ''max_value'' JNull) \<and>
                 avg_val mt = type_checked ty (dict_get e ''average_value'' JNull) \<and>
                 last_val mt = type_checked ty lv)
     else b' k = b k"
proof -
  from assms obtain e where e: "x = JObj e"
    by (cases x) (simp_all add: metric_entry_def)
  show ?thesis
  proof (cases "\<exists>k0. map_of e ''slug'' = Some (JStr k0)")
    case False
    then have ns: "\<forall>k0. dict_get e ''slug'' JNull \<noteq> JStr k0" by (simp add: dict_get_slug)
    with assms e have "b' = b"
      by (cases "dict_get e ''slug'' JNull") (simp_all add: metric_entry_def split: if_splits)
    with ns e show ?thesis by simp
  next
    case True
    then obtain k0 where k0: "map_of e ''slug'' = Some (JStr k0)" ..
    show ?thesis
    proof (cases "map_of int_stats k0")
      case (Some udc)
      then obtain u dc where udc: "map_of int_stats k0 = Some (u, dc)" by (cases udc) simp
      have "(required_type k0 :: ('f json \<Rightarrow> bool) option) = Some isinstance_int"
        by (rule int_stats_required[OF udc])
      with assms[unfolded e metric_entry_int[OF k0 udc]] e k0
      show ?thesis
        by (auto simp: bind_r_eq_Inr type_checked_def)
    next
      case None
      show ?thesis
      proof (cases "k0 \<in> set float_stats")
        case True
        have "(required_type k0 :: ('f json \<Rightarrow> bool) option) = Some isinstance_float"
          by (rule float_stats_required[OF True])
        with assms[unfolded e metric_entry_float[OF k0 True]] e k0
        show ?thesis
          by (auto simp: bind_r_eq_Inr type_checked_def)
      next
        case False
        with None k0 e assms have "b' = b" by (simp add: metric_entry_def)
        moreover have "(required_type k0 :: ('f json \<Rightarrow> bool) option) = None"
          by (rule not_required[OF None False])
        ultimately show ?thesis using e k0 by auto
      qed
    qed
  qed
qed

lemma metric_loop_last_wins:
  fixes env :: "('f, 'z, 't) py_env"
  assumes "for_each (metric_entry env) Map.empty fl = Inr m"
  shows "case required_type k of
           None \<Rightarrow> m k = None
         | Some ty \<Rightarrow>
             (case with_slug k fl of
                [] \<Rightarrow> m k = None
              | y # ys \<Rightarrow>
                  \<exists>e mt lv. last (y # ys) = JObj e \<and> last_value env (JObj e) = Inr lv \<and>
                    m k = Some (Metric mt) \<and>
                    max_val mt = type_checked ty (dict_get e ''max_value'' JNull) \<and>
                    avg_val mt = type_checked ty (dict_get e ''average_value'' JNull) \<and>
                    last_val mt = type_checked ty lv)"
proof (cases "required_type k :: ('f json \<Rightarrow> bool) option")
  case None
  have "case filter (\<lambda>x. False) fl of [] \<Rightarrow> m k = Map.empty k
        | y # ys \<Rightarrow> (\<lambda>x v. True) (last (y # ys)) (m k)"
  proof (rule for_each_last_wins[OF assms])
    fix b :: "'f pydict" and x b'
    assume "metric_entry env b x = Inr b'"
    from metric_entry_Inr[OF this, of k] None
    show "if False then True else b' k = b k" by (simp split: if_splits)
  qed
  with None show ?thesis by simp
next
  case (Some ty)
  let ?Q = "\<lambda>x v. \<exists>e mt lv. x = JObj e \<and> last_value env (JObj e) = Inr lv \<and>
                    v = Some (Metric mt) \<and>
                    max_val mt = type_checked ty (dict_get e ''max_value'' JNull) \<and>
                    avg_val mt = type_checked ty (dict_get e ''average_value'' JNull) \<and>
                    last_val mt = type_checked ty lv"
  have "case filter (\<lambda>x. py_get x ''slug'' JNull = Inr (JStr k)) fl of [] \<Rightarrow> m k = Map.empty k
        | y # ys \<Rightarrow> ?Q (last (y # ys)) (m k)"
  proof (rule for_each_last_wins[OF assms])
    fix b :: "'f pydict" and x b'
    assume "metric_entry env b x = Inr b'"
    from metric_entry_Inr[OF this, of k] Some
    show "if py_get x ''slug'' JNull = Inr (JStr k) then ?Q x (b' k) else b' k = b k"
      by (auto split: if_splits)
  qed
  with Some show ?thesis by (simp add: with_slug_def)
qed

lemma with_slug_last_in:
  assumes "with_slug k fl = y # ys"
  shows "last (y # ys) \<in> set fl"
proof -
  have "last (y # ys) \<in> set (with_slug k fl)" unfolding assms by simp
  then show ?thesis by (simp add: with_slug_def)
qed

text \<open>
  Claim C3.  On a metrics collection of the data model, the preprocessor first builds
  the flattened list, each top-level entry followed at once by its alternatives in
  their order, and then the mapping: a slug that is not recognised gets no key; a
  recognised slug gets the metric of the last entry of the flattened list with that
  slug (a later entry overwrites an earlier one), or no key when there is none.  In
  that metric, max and average are the entry's \<^verbatim>\<open>max_value\<close> and \<^verbatim>\<open>average_value\<close> when
  they pass the check for the slug's type (\<^verbatim>\<open>int\<close> for heart\_rate, resistance, cadence
  and output, \<^verbatim>\<open>float\<close> for speed and incline) and \<^verbatim>\<open>None\<close> otherwise, and last is the
  final element of the entry's \<^verbatim>\<open>values\<close>, or \<^verbatim>\<open>None\<close> when the series is empty or its
  final element fails the check.
\<close>

theorem metric_preprocessor:
  fixes env :: "('f, 'z, 't) py_env"
  assumes "map_of d ''metrics'' = Some (JList ms)" and "list_all wf_metric_entry ms"
  shows "flatten_metrics env d = Inr (flattened ms) \<and>
     (\<exists>m. preprocess_metrics env d = Inr m \<and>
        (\<forall>k. case required_type k of
               None \<Rightarrow> m k = None
             | Some ty \<Rightarrow>
                 (case with_slug k (flattened ms) of
                    [] \<Rightarrow> m k = None
                  | y # ys \<Rightarrow>
                      \<exists>e mt. last (y # ys) = JObj e \<and> m k = Some (Metric mt) \<and>
                        max_val mt = type_checked ty (dict_get e ''max_value'' JNull) \<and>
                        avg_val mt = type_checked ty (dict_get e ''average_value'' JNull) \<and>
                        last_val mt = type_checked ty (series_last e))))"
proof -
  have fl: "flatten_metrics env d = Inr (flattened ms)"
    using assms flatten_loop_wf[OF assms(2), of env "[]"]
    by (simp add: flatten_metrics_def flattened_def)
  have wf: "list_all wf_metric (flattened ms)"
    using assms(2) unfolding flattened_def by (induction ms) (simp_all add: alternatives_wf)
  have "\<exists>r. for_each (metric_entry env) Map.empty (flattened ms) = Inr r \<and> metrics_inv r"
  proof (rule for_each_total_inv)
    show "metrics_inv (Map.empty :: 'f pydict)" by (simp add: metrics_inv_def)
  next
    fix a :: "'f pydict" and x
    assume "x \<in> set (flattened ms)" and "metrics_inv a"
    with wf show "\<exists>a'. metric_entry env a x = Inr a' \<and> metrics_inv a'"
      by (auto simp: list_all_iff intro: metric_entry_wf)
  qed
  then obtain m where m: "for_each (metric_entry env) Map.empty (flattened ms) = Inr m"
    by blast
  have pm: "preprocess_metrics env d = Inr m"
    using fl m by (simp add: preprocess_metrics_def)
  have "case required_type k of
               None \<Rightarrow> m k = None
             | Some ty \<Rightarrow>
                 (case with_slug k (flattened ms) of
                    [] \<Rightarrow> m k = None
                  | y # ys \<Rightarrow>
                      \<exists>e mt. last (y # ys) = JObj e \<and> m k = Some (Metric mt) \<and>
                        max_val mt = type_checked ty (dict_get e ''max_value'' JNull) \<and>
                        avg_val mt = type_checked ty (dict_get e ''average_value'' JNull) \<and>
                        last_val mt = type_checked ty (series_last e))" for k
  proof (cases "required_type k :: ('f json \<Rightarrow> bool) option")
    case None
    with metric_loop_last_wins[OF m, of k] show ?thesis by simp
  next
    case (Some ty)
    show ?thesis
    proof (cases "with_slug k (flattened ms)")
      case Nil
      with Some metric_loop_last_wins[OF m, of k] show ?thesis by simp
    next
      case (Cons y ys)
      with Some metric_loop_last_wins[OF m, of k]
      obtain e mt lv where e: "last (y # ys) = JObj e"
        and lv: "last_value env (JObj e) = Inr lv"
        and mt: "m k = Some (Metric mt)"
          "max_val mt = type_checked ty (dict_get e ''max_value'' JNull)"
          "avg_val mt = type_checked ty (dict_get e ''average_value'' JNull)"
          "last_val mt = type_checked ty lv"
        by auto
      from with_slug_last_in[OF Cons] e wf have "wf_metric (JObj e)"
        by (auto simp: list_all_iff)
      from last_value_wf[OF this, of env] lv have "lv = series_last e"
        by (simp add: series_last_def)
      with Some Cons e mt show ?thesis by simp
    qed
  qed
  with fl pm show ?thesis by blast
qed

theorem metric_preprocessor_witness:
  "\<exists>m mt. preprocess_metrics example_env
       [(''metrics'', JList
          [JObj [(''slug'', JStr ''pace''),
                 (''alternatives'', JList
                    [JObj [(''slug'', JStr ''speed''), (''max_value'', JFloat (3 / 2)),
                           (''average_value'', JFloat 1),
                           (''values'', JList [JFloat (1 / 2), JFloat (6 / 5)])]])],
           JObj [(''slug'', JStr ''speed''), (''max_value'', JInt 3),
                 (''average_value'', JFloat 2), (''values'', JList [])]])] = Inr m \<and>
     m ''pace'' = None \<and> m ''speed'' = Some (Metric mt) \<and>
     max_val mt = JNull \<and> avg_val mt = JFloat 2 \<and> last_val mt = JNull"
proof -
  let ?alt = "JObj [(''slug'', JStr ''speed''), (''max_value'', JFloat (3 / 2)),
                           (''average_value'', JFloat 1),
                           (''values'', JList [JFloat (1 / 2), JFloat (6 / 5 :: rat)])]"
  let ?ms = "[JObj [(''slug'', JStr ''pace''), (''alternatives'', JList [?alt])],
           JObj [(''slug'', JStr ''speed''), (''max_value'', JInt 3),
                 (''average_value'', JFloat 2), (''values'', JList [])]]"
  let ?d = "[(''metrics'', JList ?ms)]"
  have 1: "map_of ?d ''metrics'' = Some (JList ?ms)" by simp
  have 2: "list_all wf_metric_entry ?ms"
    by (simp add: wf_metric_entry_def wf_metric_def dict_get_def)
  from metric_preprocessor[OF 1 2, of example_env]
  obtain m where m: "preprocess_metrics example_env ?d = Inr m"
    and all: "\<forall>k. case required_type k of
               None \<Rightarrow> m k = None
             | Some ty \<Rightarrow>
                 (case with_slug k (flattened ?ms) of
                    [] \<Rightarrow> m k = None
                  | y # ys \<Rightarrow>
                      \<exists>e mt. last (y # ys) = JObj e \<and> m k = Some (Metric mt) \<and>
                        max_val mt = type_checked ty (dict_get e ''max_value'' JNull) \<and>
                        avg_val mt = type_checked ty (dict_get e ''average_value'' JNull) \<and>
                        last_val mt = type_checked ty (series_last e))"
    by blast
  from all[rule_format, of "''pace''"] have p: "m ''pace'' = None"
    by (simp add: required_type_def)
  from all[rule_format, of "''speed''"]
  have "\<exists>mt. m ''speed'' = Some (Metric mt) \<and>
     max_val mt = JNull \<and> avg_val mt = JFloat 2 \<and> last_val mt = JNull"
    by (simp add: required_type_def with_slug_def flattened_def alternatives_def
        type_checked_def series_last_def dict_get_def)
  with m p show ?thesis by blast
qed

section \<open>The target windows\<close>

lemma target_bound_Inr:
  assumes "target_bound b x = Inr b'" and "n = ''speed'' \<or> n = ''incline''"
  shows "if py_get x ''name'' JNull = Inr (JStr n)
     then b' (''target_'' @ n) = Some (Bounds (fst (bounds_of x)) (snd (bounds_of x)))
     else b' (''target_'' @ n) = b (''target_'' @ n)"
proof -
  from assms(1) obtain mt where mt: "x = JObj mt"
    by (cases x) (simp_all add: target_bound_def)
  from assms show ?thesis
    unfolding mt
    by (auto simp: target_bound_def bind_r_eq_Inr bounds_of_def dict_get_def
        split: if_splits option.splits)
qed

lemma target_bounds_last_wins:
  assumes "for_each target_bound b ms = Inr b'" and "n = ''speed'' \<or> n = ''incline''"
  shows "case with_name n ms of
           [] \<Rightarrow> b' (''target_'' @ n) = b (''target_'' @ n)
         | y # ys \<Rightarrow> b' (''target_'' @ n) =
             Some (Bounds (fst (bounds_of (last (y # ys)))) (snd (bounds_of (last (y # ys)))))"
  unfolding with_name_def
proof (rule for_each_last_wins[OF assms(1),
      where Q = "\<lambda>x v. v = Some (Bounds (fst (bounds_of x)) (snd (bounds_of x)))"])
  fix a :: "'a pydict" and x a'
  assume "target_bound a x = Inr a'"
  from target_bound_Inr[OF this assms(2)]
  show "if py_get x ''name'' JNull = Inr (JStr n)
     then a' (''target_'' @ n) = Some (Bounds (fst (bounds_of x)) (snd (bounds_of x)))
     else a' (''target_'' @ n) = a (''target_'' @ n)" .
qed

lemma preprocess_metrics_no_targets:
  fixes env :: "('f, 'z, 't) py_env"
  assumes "preprocess_metrics env d = Inr m" and "n = ''speed'' \<or> n = ''incline''"
  shows "m (''target_'' @ n) = None"
proof -
  from assms(1) obtain fl where "for_each (metric_entry env) Map.empty fl = Inr m"
    by (auto simp: preprocess_metrics_def bind_r_eq_Inr)
  from metric_loop_last_wins[OF this, of "''target_'' @ n"] assms(2)
  show ?thesis by (auto simp: required_type_def)
qed

lemma bound_value_cases:
  "m key = None \<Longrightarrow> bound_value m key field = Inr JNull"
  "m key = Some (Bounds u l) \<Longrightarrow> bound_value m key ''upper'' = Inr u"
  "m key = Some (Bounds u l) \<Longrightarrow> bound_value m key ''lower'' = Inr l"
  by (simp_all add: bound_value_def)

lemma num_le_ge: "num_le env a b = num_ge env b a"
  by (cases a; cases b) (simp_all add: num_le_def)

lemma window_offset_num:
  assumes "map_of kv ''offsets'' = Some (JObj off)" and "map_of off k = Some v"
  shows "window_offset k (JObj kv) = num_of v"
  using assms by (cases v) (simp_all add: window_offset_def)

lemma target_window_active:
  assumes "wf_window w"
  shows "target_window env el b w =
     (if active env el w then for_each target_bound b (window_metrics w) else Inr b)"
proof -
  from assms obtain kv where kv: "w = JObj kv"
    by (cases w) (simp_all add: wf_window_def)
  from assms kv obtain off sv ev ns ne ms where
    off: "map_of kv ''offsets'' = Some (JObj off)" and
    sv: "map_of off ''start'' = Some sv" "num_of sv = Some ns" and
    ev: "map_of off ''end'' = Some ev" "num_of ev = Some ne" and
    ms: "map_of kv ''metrics'' = Some (JList ms)"
    by (auto simp: wf_window_def is_number_def split: option.splits json.splits)
  have act: "active env el w = (num_ge env el ns \<and> num_ge env ne el)"
    unfolding kv active_def window_offset_num[OF off sv(1)] window_offset_num[OF off ev(1)]
    by (simp add: sv ev num_le_ge)
  have wm: "window_metrics w = ms" unfolding kv using ms by (simp add: window_metrics_def)
  show ?thesis
    unfolding act wm unfolding kv
    using off sv ev ms
    by (simp add: target_window_def py_ge_num_def py_num_ge_def)
qed

lemma target_windows_last_wins:
  assumes "for_each (target_window env el) m ws = Inr m'"
    and "list_all wf_window ws" and "n = ''speed'' \<or> n = ''incline''"
  shows "case target_of env n el ws of
           None \<Rightarrow> m' (''target_'' @ n) = m (''target_'' @ n)
         | Some (u, l) \<Rightarrow> m' (''target_'' @ n) = Some (Bounds u l)"
proof -
  let ?hit = "\<lambda>w. active env el w \<and> with_name n (window_metrics w) \<noteq> []"
  let ?Q = "\<lambda>w v. v = Some (Bounds (fst (bounds_of (last (with_name n (window_metrics w)))))
                               (snd (bounds_of (last (with_name n (window_metrics w))))))"
  have "case filter ?hit ws of
          [] \<Rightarrow> m' (''target_'' @ n) = m (''target_'' @ n)
        | y # ys \<Rightarrow> ?Q (last (y # ys)) (m' (''target_'' @ n))"
  proof (rule for_each_last_wins[OF assms(1)])
    fix b :: "'a pydict" and w b'
    assume w: "w \<in> set ws" and r: "target_window env el b w = Inr b'"
    from w assms(2) have "wf_window w" by (simp add: list_all_iff)
    note tw = r[unfolded target_window_active[OF this]]
    show "if ?hit w then ?Q w (b' (''target_'' @ n))
          else b' (''target_'' @ n) = b (''target_'' @ n)"
    proof (cases "active env el w")
      case False
      with tw show ?thesis by simp
    next
      case True
      with tw have "for_each target_bound b (window_metrics w) = Inr b'" by simp
      from target_bounds_last_wins[OF this assms(3)] True
      show ?thesis by (cases "with_name n (window_metrics w)") simp_all
    qed
  qed
  then show ?thesis
    by (cases "filter ?hit ws") (simp_all add: target_of_def case_prod_beta)
qed

lemma actual_elapsed_Inr:
  assumes "actual_elapsed env clock s = Inr el"
  shows "elapsed_seconds env clock s = Some el"
proof (cases "map_of s ''start_time''")
  case None
  with assms show ?thesis
    by (simp add: actual_elapsed_def py_int_sub_def elapsed_seconds_def)
next
  case (Some v)
  with assms show ?thesis
    by (cases v)
       (auto simp: actual_elapsed_def py_int_sub_def elapsed_seconds_def bind_r_eq_Inr)
qed

lemma compile_targets:
  fixes env :: "('f, 'z, 't) py_env"
  assumes "compile_quant_data env clock s d = Inr stats"
    and "target_metrics d = Inr (JList ws)"
    and "list_all wf_window ws"
  shows "\<exists>el m'. elapsed_seconds env clock s = Some el \<and>
     (\<forall>n. n = ''speed'' \<or> n = ''incline'' \<longrightarrow>
        (case target_of env n el ws of
           None \<Rightarrow> m' (''target_'' @ n) = None
         | Some (u, l) \<Rightarrow> m' (''target_'' @ n) = Some (Bounds u l))) \<and>
     (\<exists>v. bound_value m' ''target_incline'' ''upper'' = Inr v \<and> stat_value (stats ! 6) = Val v) \<and>
     (\<exists>v. bound_value m' ''target_incline'' ''lower'' = Inr v \<and> stat_value (stats ! 7) = Val v) \<and>
     (\<exists>v. bound_value m' ''target_speed'' ''upper'' = Inr v \<and> stat_value (stats ! 8) = Val v) \<and>
     (\<exists>v. bound_value m' ''target_speed'' ''lower'' = Inr v \<and> stat_value (stats ! 9) = Val v)"
proof -
  from compile_parts[OF assms(1)] obtain m targets el m' where
    m: "preprocess_metrics env d = Inr m" and
    t: "target_metrics d = Inr targets" and
    el: "actual_elapsed env clock s = Inr el" and
    r: "resolve_targets env el m targets = Inr m'" and
    v: "\<exists>v. bound_value m' ''target_incline'' ''upper'' = Inr v \<and> stat_value (stats ! 6) = Val v"
       "\<exists>v. bound_value m' ''target_incline'' ''lower'' = Inr v \<and> stat_value (stats ! 7) = Val v"
       "\<exists>v. bound_value m' ''target_speed'' ''upper'' = Inr v \<and> stat_value (stats ! 8) = Val v"
       "\<exists>v. bound_value m' ''target_speed'' ''lower'' = Inr v \<and> stat_value (stats ! 9) = Val v"
    by blast
  from t assms(2) have targets: "targets = JList ws" by simp
  from r have loop: "for_each (target_window env el) m ws = Inr m'"
    unfolding targets by (simp add: resolve_targets_def)
  have "case target_of env n el ws of
           None \<Rightarrow> m' (''target_'' @ n) = None
         | Some (u, l) \<Rightarrow> m' (''target_'' @ n) = Some (Bounds u l)"
    if n: "n = ''speed'' \<or> n = ''incline''" for n
    using target_windows_last_wins[OF loop assms(3) n] preprocess_metrics_no_targets[OF m n]
    by (auto split: option.splits)
  with actual_elapsed_Inr[OF el] v show ?thesis by blast
qed

lemma target_of_no_active:
  "filter (active env e) ws = [] \<Longrightarrow> target_of env n e ws = None"
  by (simp add: target_of_def filter_empty_conv)

text \<open>
  Claim C4.  With the elapsed seconds computed as \<^verbatim>\<open>now\<close> minus the summary's
  \<^verbatim>\<open>start_time\<close> (0 when it is absent), the four target stats of the returned list are
  the bounds of the windows whose interval satisfies \<^verbatim>\<open>start <= elapsed <= end\<close>, both
  ends included: for each of \<^verbatim>\<open>incline\<close> and \<^verbatim>\<open>speed\<close>, the upper and lower bound of the
  last such window, in iteration order, that carries bounds for the name, a later
  window overwriting an earlier one; and \<^verbatim>\<open>None\<close> when there is none.  When no window
  is active, all four are \<^verbatim>\<open>None\<close>.  The offsets and the start time are any numbers:
  between integers a window with offsets \<open>a\<close> and \<open>z\<close> is active at \<open>e\<close> exactly when
  \<open>a \<le> e \<and> e \<le> z\<close>, and with a float among them the two comparisons are the
  library's \<^verbatim>\<open>elapsed >= start\<close> and \<^verbatim>\<open>end >= elapsed\<close>.
\<close>

theorem target_window_resolution:
  fixes env :: "('f, 'z, 't) py_env"
  assumes "compile_quant_data env clock s d = Inr stats"
    and "map_of d ''target_metrics_performance_data'' = Some (JObj p)"
    and "map_of p ''target_metrics'' = Some (JList ws)"
    and "list_all wf_window ws"
  shows "\<exists>elapsed. elapsed_seconds env clock s = Some elapsed \<and>
    map stat_name (take 4 (drop 6 stats)) =
      [''Target Incline Upper'', ''Target Incline Lower'',
       ''Target Speed Upper'', ''Target Speed Lower''] \<and>
    stat_value (stats ! 6) =
      Val (case target_of env ''incline'' elapsed ws of None \<Rightarrow> JNull | Some (u, l) \<Rightarrow> u) \<and>
    stat_value (stats ! 7) =
      Val (case target_of env ''incline'' elapsed ws of None \<Rightarrow> JNull | Some (u, l) \<Rightarrow> l) \<and>
    stat_value (stats ! 8) =
      Val (case target_of env ''speed'' elapsed ws of None \<Rightarrow> JNull | Some (u, l) \<Rightarrow> u) \<and>
    stat_value (stats ! 9) =
      Val (case target_of env ''speed'' elapsed ws of None \<Rightarrow> JNull | Some (u, l) \<Rightarrow> l) \<and>
    (filter (active env elapsed) ws = [] \<longrightarrow>
       (\<forall>i \<in> {6, 7, 8, 9}. stat_value (stats ! i) = Val JNull)) \<and>
    (\<forall>w e a z. w \<in> set ws \<and> elapsed = NI e \<and> window_offset ''start'' w = Some (NI a) \<and>
       window_offset ''end'' w = Some (NI z) \<longrightarrow>
       active env elapsed w = (a \<le> e \<and> e \<le> z)) \<and>
    (\<forall>w x a z. w \<in> set ws \<and> elapsed = NF x \<and> window_offset ''start'' w = Some a \<and>
       window_offset ''end'' w = Some z \<longrightarrow>
       active env elapsed w = (float_ge env elapsed a \<and> float_ge env z elapsed))"
proof -
  have tm: "target_metrics d = Inr (JList ws)"
    using assms(2,3) by (simp add: target_metrics_def)
  have names: "map stat_name (take 4 (drop 6 stats)) =
      [''Target Incline Upper'', ''Target Incline Lower'',
       ''Target Speed Upper'', ''Target Speed Lower'']"
    using compile_shape(1)[OF assms(1)]
    by (simp add: stat_names_def take_map[symmetric] drop_map[symmetric])
  have k: "''target_'' @ ''incline'' = ''target_incline''" "''target_'' @ ''speed'' = ''target_speed''"
    by simp_all
  from compile_targets[OF assms(1) tm assms(4)]
  obtain e m' where
    e: "elapsed_seconds env clock s = Some e" and
    t: "\<forall>n. n = ''speed'' \<or> n = ''incline'' \<longrightarrow>
        (case target_of env n e ws of
           None \<Rightarrow> m' (''target_'' @ n) = None
         | Some (u, l) \<Rightarrow> m' (''target_'' @ n) = Some (Bounds u l))" and
    iu: "\<exists>v. bound_value m' ''target_incline'' ''upper'' = Inr v \<and> stat_value (stats ! 6) = Val v" and
    il: "\<exists>v. bound_value m' ''target_incline'' ''lower'' = Inr v \<and> stat_value (stats ! 7) = Val v" and
    su: "\<exists>v. bound_value m' ''target_speed'' ''upper'' = Inr v \<and> stat_value (stats ! 8) = Val v" and
    sl: "\<exists>v. bound_value m' ''target_speed'' ''lower'' = Inr v \<and> stat_value (stats ! 9) = Val v"
    by blast
  from t[rule_format, of "''incline''"] have
    i: "case target_of env ''incline'' e ws of
          None \<Rightarrow> m' ''target_incline'' = None
        | Some (u, l) \<Rightarrow> m' ''target_incline'' = Some (Bounds u l)"
    unfolding k by simp
  from t[rule_format, of "''speed''"] have
    s: "case target_of env ''speed'' e ws of
          None \<Rightarrow> m' ''target_speed'' = None
        | Some (u, l) \<Rightarrow> m' ''target_speed'' = Some (Bounds u l)"
    unfolding k by simp
  have v6: "stat_value (stats ! 6) =
      Val (case target_of env ''incline'' e ws of None \<Rightarrow> JNull | Some (u, l) \<Rightarrow> u)"
    using i iu by (cases "target_of env ''incline'' e ws") (auto simp: bound_value_cases)
  have v7: "stat_value (stats ! 7) =
      Val (case target_of env ''incline'' e ws of None \<Rightarrow> JNull | Some (u, l) \<Rightarrow> l)"
    using i il by (cases "target_of env ''incline'' e ws") (auto simp: bound_value_cases)
  have v8: "stat_value (stats ! 8) =
      Val (case target_of env ''speed'' e ws of None \<Rightarrow> JNull | Some (u, l) \<Rightarrow> u)"
    using s su by (cases "target_of env ''speed'' e ws") (auto simp: bound_value_cases)
  have v9: "stat_value (stats ! 9) =
      Val (case target_of env ''speed'' e ws of None \<Rightarrow> JNull | Some (u, l) \<Rightarrow> l)"
    using s sl by (cases "target_of env ''speed'' e ws") (auto simp: bound_value_cases)
  have none: "filter (active env e) ws = [] \<longrightarrow>
       (\<forall>i \<in> {6, 7, 8, 9}. stat_value (stats ! i) = Val JNull)"
    using v6 v7 v8 v9 by (auto simp: target_of_no_active)
  have ints: "\<forall>w x a z. w \<in> set ws \<and> e = NI x \<and> window_offset ''start'' w = Some (NI a) \<and>
       window_offset ''end'' w = Some (NI z) \<longrightarrow>
       active env e w = (a \<le> x \<and> x \<le> z)"
    by (auto simp: active_def num_le_def)
  have floats: "\<forall>w x a z. w \<in> set ws \<and> e = NF x \<and> window_offset ''start'' w = Some a \<and>
       window_offset ''end'' w = Some z \<longrightarrow>
       active env e w = (float_ge env e a \<and> float_ge env z e)"
    by (auto simp: active_def num_le_def split: num.splits)
  show ?thesis
    by (rule exI[of _ e]) (intro conjI; fact)
qed

theorem target_window_resolution_witness:
  "(\<exists>stats. compile_quant_data example_env 1000 [(''start_time'', JInt 400)]
       [(''target_metrics_performance_data'', JObj [(''target_metrics'', JList
          [JObj [(''offsets'', JObj [(''start'', JInt 0), (''end'', JInt 600)]),
                 (''metrics'', JList
                    [JObj [(''name'', JStr ''incline''), (''upper'', JInt 5), (''lower'', JInt 2)],
                     JObj [(''name'', JStr ''speed''), (''upper'', JInt 9), (''lower'', JInt 8)]])],
           JObj [(''offsets'', JObj [(''start'', JInt 600), (''end'', JInt 900)]),
                 (''metrics'', JList
                    [JObj [(''name'', JStr ''incline''), (''upper'', JInt 7), (''lower'', JInt 3)]])],
           JObj [(''offsets'', JObj [(''start'', JInt 601), (''end'', JInt 900)]),
                 (''metrics'', JList
                    [JObj [(''name'', JStr ''speed''), (''upper'', JInt 1),
                           (''lower'', JInt 0)]])]])])]
       = Inr stats \<and>
     stat_value (stats ! 6) = Val (JInt 7) \<and> stat_value (stats ! 7) = Val (JInt 3) \<and>
     stat_value (stats ! 8) = Val (JInt 9) \<and> stat_value (stats ! 9) = Val (JInt 8)) \<and>
   (\<exists>stats. compile_quant_data example_env 1000 [(''start_time'', JFloat (799 / 2))]
       [(''target_metrics_performance_data'', JObj [(''target_metrics'', JList
          [JObj [(''offsets'', JObj [(''start'', JInt 0), (''end'', JFloat (1201 / 2))]),
                 (''metrics'', JList
                    [JObj [(''name'', JStr ''incline''), (''upper'', JInt 5), (''lower'', JInt 2)],
                     JObj [(''name'', JStr ''speed''), (''upper'', JInt 9), (''lower'', JInt 8)]])],
           JObj [(''offsets'', JObj [(''start'', JFloat (1201 / 2)), (''end'', JInt 900)]),
                 (''metrics'', JList
                    [JObj [(''name'', JStr ''incline''), (''upper'', JInt 7), (''lower'', JInt 3)]])],
           JObj [(''offsets'', JObj [(''start'', JInt 601), (''end'', JInt 900)]),
                 (''metrics'', JList
                    [JObj [(''name'', JStr ''speed''), (''upper'', JInt 1),
                           (''lower'', JInt 0)]])]])])]
       = Inr stats \<and>
     stat_value (stats ! 6) = Val (JInt 7) \<and> stat_value (stats ! 7) = Val (JInt 3) \<and>
     stat_value (stats ! 8) = Val (JInt 9) \<and> stat_value (stats ! 9) = Val (JInt 8))"
proof -
  let ?s = "[(''start_time'', JInt 400) :: string \<times> rat json]"
  let ?ws = "[JObj [(''offsets'', JObj [(''start'', JInt 0), (''end'', JInt 600)]),
                 (''metrics'', JList
                    [JObj [(''name'', JStr ''incline''), (''upper'', JInt 5), (''lower'', JInt 2)],
                     JObj [(''name'', JStr ''speed''), (''upper'', JInt 9), (''lower'', JInt 8)]])],
           JObj [(''offsets'', JObj [(''start'', JInt 600), (''end'', JInt 900)]),
                 (''metrics'', JList
                    [JObj [(''name'', JStr ''incline''), (''upper'', JInt 7), (''lower'', JInt 3)]])],
           JObj [(''offsets'', JObj [(''start'', JInt 601), (''end'', JInt 900)]),
                 (''metrics'', JList
                    [JObj [(''name'', JStr ''speed''), (''upper'', JInt 1),
                           (''lower'', JInt (0 :: int)) :: string \<times> rat json]])]]"
  let ?p = "[(''target_metrics'', JList ?ws)]"
  let ?d = "[(''target_metrics_performance_data'', JObj ?p)]"
  let ?s' = "[(''start_time'', JFloat (799 / 2)) :: string \<times> rat json]"
  let ?ws' = "[JObj [(''offsets'', JObj [(''start'', JInt 0), (''end'', JFloat (1201 / 2))]),
                 (''metrics'', JList
                    [JObj [(''name'', JStr ''incline''), (''upper'', JInt 5), (''lower'', JInt 2)],
                     JObj [(''name'', JStr ''speed''), (''upper'', JInt 9), (''lower'', JInt 8)]])],
           JObj [(''offsets'', JObj [(''start'', JFloat (1201 / 2)), (''end'', JInt 900)]),
                 (''metrics'', JList
                    [JObj [(''name'', JStr ''incline''), (''upper'', JInt 7), (''lower'', JInt 3)]])],
           JObj [(''offsets'', JObj [(''start'', JInt 601), (''end'', JInt 900)]),
                 (''metrics'', JList
                    [JObj [(''name'', JStr ''speed''), (''upper'', JInt 1),
                           (''lower'', JInt (0 :: int)) :: string \<times> rat json]])]]"
  let ?p' = "[(''target_metrics'', JList ?ws')]"
  let ?d' = "[(''target_metrics_performance_data'', JObj ?p')]"
  have r: "py_round example_env 1000 = 1000"
    by (simp add: example_env_def round_half_even_def)
  have sub: "int_sub_float example_env 1000 (799 / 2) = Inr (1201 / 2)"
    by (simp add: example_env_def)
  have ge: "float_ge example_env = (\<lambda>a b. rat_of_num b \<le> rat_of_num a)"
    by (simp add: example_env_def)

  have "\<not> isl (compile_quant_data example_env 1000 ?s ?d)"
    by (simp add: compile_defs)
  then obtain stats where st: "compile_quant_data example_env 1000 ?s ?d = Inr stats"
    by (cases "compile_quant_data example_env 1000 ?s ?d") auto
  have h2: "map_of ?d ''target_metrics_performance_data'' = Some (JObj ?p)" by simp
  have h3: "map_of ?p ''target_metrics'' = Some (JList ?ws)" by simp
  have h4: "list_all wf_window ?ws"
    by (simp add: wf_window_def wf_target_bound_def is_number_def)
  have el: "elapsed_seconds example_env 1000 ?s = Some (NI 600)"
    by (simp add: elapsed_seconds_def r)
  have ti: "target_of example_env ''incline'' (NI 600) ?ws = Some (JInt 7, JInt 3)"
    by (simp add: target_of_def active_def num_le_def window_offset_def window_metrics_def
        with_name_def bounds_of_def dict_get_def)
  have ts: "target_of example_env ''speed'' (NI 600) ?ws = Some (JInt 9, JInt 8)"
    by (simp add: target_of_def active_def num_le_def window_offset_def window_metrics_def
        with_name_def bounds_of_def dict_get_def)
  from target_window_resolution[OF st h2 h3 h4] el ti ts
  have a: "stat_value (stats ! 6) = Val (JInt 7) \<and> stat_value (stats ! 7) = Val (JInt 3) \<and>
     stat_value (stats ! 8) = Val (JInt 9) \<and> stat_value (stats ! 9) = Val (JInt 8)"
    by auto

  have "\<not> isl (compile_quant_data example_env 1000 ?s' ?d')"
    by (simp add: compile_defs)
  then obtain stats' where st': "compile_quant_data example_env 1000 ?s' ?d' = Inr stats'"
    by (cases "compile_quant_data example_env 1000 ?s' ?d'") auto
  have g2: "map_of ?d' ''target_metrics_performance_data'' = Some (JObj ?p')" by simp
  have g3: "map_of ?p' ''target_metrics'' = Some (JList ?ws')" by simp
  have g4: "list_all wf_window ?ws'"
    by (simp add: wf_window_def wf_target_bound_def is_number_def)
  have el': "elapsed_seconds example_env 1000 ?s' = Some (NF (1201 / 2))"
    by (simp add: elapsed_seconds_def r sub)
  have ti': "target_of example_env ''incline'' (NF (1201 / 2)) ?ws' = Some (JInt 7, JInt 3)"
    by (simp add: target_of_def active_def num_le_def window_offset_def window_metrics_def
        with_name_def bounds_of_def dict_get_def ge)
  have ts': "target_of example_env ''speed'' (NF (1201 / 2)) ?ws' = Some (JInt 9, JInt 8)"
    by (simp add: target_of_def active_def num_le_def window_offset_def window_metrics_def
        with_name_def bounds_of_def dict_get_def ge)
  from target_window_resolution[OF st' g2 g3 g4] el' ti' ts'
  have b: "stat_value (stats' ! 6) = Val (JInt 7) \<and> stat_value (stats' ! 7) = Val (JInt 3) \<and>
     stat_value (stats' ! 8) = Val (JInt 9) \<and> stat_value (stats' ! 9) = Val (JInt 8)"
    by auto
  from st a st' b show ?thesis by blast
qed

section \<open>Absent sources\<close>













end
